theory Spec2Isabelle
  imports Main "HOL-Library.AList"
begin

section \<open>Preliminaries: JavaScript strings and time\<close>

text \<open>
  A JavaScript string is a sequence of UTF-16 code units; \<open>length\<close>, \<open>slice\<close>,
  \<open>charCodeAt\<close> and the regular expressions of the handlers all work on code units.
  A code unit is modelled by its number, an integer (0 to 65535 in the strings that
  occur).  \<open>js\<close> turns an Isabelle string literal into the JavaScript string with
  the same (ASCII) characters.
\<close>

type_synonym jsstring = "int list"

definition js :: "string \<Rightarrow> jsstring" where
  "js s = map of_char s"

text \<open>
  Instants are integers: milliseconds since the epoch, as \<open>Date.now()\<close> and
  \<open>getTime()\<close> return them.  A \<open>TIMESTAMPTZ\<close> column and its ISO-8601 rendering are
  identified with the instant they denote.
\<close>

type_synonym instant = int

definition DAY_MS :: int where
  "DAY_MS = 24 * 60 * 60 * 1000"

section \<open>JSON values and the runtime's \<open>JSON.parse\<close>\<close>

text \<open>
  The values \<open>JSON.parse\<close> can produce.  A number \<open>JNum m e\<close> stands for the decimal
  \<open>m * 10^e\<close> written in the text; the rounding of that decimal to a double is not
  modelled.  An object keeps its properties in creation order.  JavaScript's
  \<open>undefined\<close> is \<open>None\<close> of \<open>json option\<close>.
\<close>

datatype json =
    JNull
  | JBool bool
  | JNum int int
  | JStr jsstring
  | JArr "json list"
  | JObj "(jsstring \<times> json) list"

datatype presult = Fuel | Bad | Got json jsstring

definition is_json_ws :: "int \<Rightarrow> bool" where
  "is_json_ws c = (c = 32 \<or> c = 9 \<or> c = 10 \<or> c = 13)"

definition skip_ws :: "jsstring \<Rightarrow> jsstring" where
  "skip_ws s = dropWhile is_json_ws s"

definition is_digit :: "int \<Rightarrow> bool" where
  "is_digit c = (48 \<le> c \<and> c \<le> 57)"

definition digits_value :: "jsstring \<Rightarrow> int" where
  "digits_value ds = foldl (\<lambda>a c. 10 * a + (c - 48)) 0 ds"

definition hex_value :: "int \<Rightarrow> int option" where
  "hex_value c =
     (if 48 \<le> c \<and> c \<le> 57 then Some (c - 48)
      else if 97 \<le> c \<and> c \<le> 102 then Some (c - 87)
      else if 65 \<le> c \<and> c \<le> 70 then Some (c - 55)
      else None)"

text \<open>The four hexadecimal digits of a \<open>\u\<close> escape, as one code unit.\<close>

definition hex4 :: "jsstring \<Rightarrow> int option" where
  "hex4 s =
     (case map hex_value (take 4 s) of
        [Some a, Some b, Some c, Some d] \<Rightarrow> Some (((a * 16 + b) * 16 + c) * 16 + d)
      | _ \<Rightarrow> None)"

definition unescape :: "int \<Rightarrow> int option" where
  "unescape e =
     (if e = 34 \<or> e = 92 \<or> e = 47 then Some e
      else if e = 98 then Some 8
      else if e = 102 then Some 12
      else if e = 110 then Some 10
      else if e = 114 then Some 13
      else if e = 116 then Some 9
      else None)"

text \<open>
  The characters of a string literal after its opening quote, up to the closing quote:
  the string's value and the rest of the input.  Control characters below U+0020 must
  be escaped.
\<close>

fun parse_chars :: "jsstring \<Rightarrow> (jsstring \<times> jsstring) option" where
  "parse_chars [] = None"
| "parse_chars (c # cs) =
     (if c = 34 then Some ([], cs)
      else if c = 92 then
        (case cs of
           [] \<Rightarrow> None
         | e # r \<Rightarrow>
             if e = 117 then
               (case hex4 r of
                  None \<Rightarrow> None
                | Some u \<Rightarrow> map_option (\<lambda>(a, b). (u # a, b)) (parse_chars (drop 4 r)))
             else
               (case unescape e of
                  None \<Rightarrow> None
                | Some u \<Rightarrow> map_option (\<lambda>(a, b). (u # a, b)) (parse_chars r)))
      else if c < 32 then None
      else map_option (\<lambda>(a, b). (c # a, b)) (parse_chars cs))"

text \<open>Optional fraction and exponent of a number: the digits read and the rest.\<close>

definition parse_frac :: "jsstring \<Rightarrow> (jsstring \<times> jsstring) option" where
  "parse_frac s =
     (case s of
        [] \<Rightarrow> Some ([], s)
      | c # cs \<Rightarrow>
          if c = 46 then
            (if takeWhile is_digit cs = [] then None
             else Some (takeWhile is_digit cs, dropWhile is_digit cs))
          else Some ([], s))"

definition parse_sign :: "jsstring \<Rightarrow> bool \<times> jsstring" where
  "parse_sign s =
     (case s of
        [] \<Rightarrow> (False, s)
      | d # ds \<Rightarrow> if d = 45 then (True, ds) else if d = 43 then (False, ds) else (False, s))"

definition parse_exp :: "jsstring \<Rightarrow> (int \<times> jsstring) option" where
  "parse_exp s =
     (case s of
        [] \<Rightarrow> Some (0, s)
      | c # cs \<Rightarrow>
          if c = 101 \<or> c = 69 then
            (let neg = fst (parse_sign cs); r = snd (parse_sign cs)
             in if takeWhile is_digit r = [] then None
                else Some ((if neg then - 1 else 1) * digits_value (takeWhile is_digit r),
                           dropWhile is_digit r))
          else Some (0, s))"

definition parse_minus :: "jsstring \<Rightarrow> bool \<times> jsstring" where
  "parse_minus s =
     (case s of [] \<Rightarrow> (False, s) | c # cs \<Rightarrow> if c = 45 then (True, cs) else (False, s))"

definition parse_int :: "jsstring \<Rightarrow> jsstring \<times> jsstring" where
  "parse_int s =
     (case s of
        [] \<Rightarrow> ([], s)
      | c # cs \<Rightarrow> if c = 48 then ([c], cs) else (takeWhile is_digit s, dropWhile is_digit s))"

text \<open>
  A number: optional minus, an integer part without superfluous leading zero, optional
  fraction, optional exponent.
\<close>

definition parse_number :: "jsstring \<Rightarrow> (json \<times> jsstring) option" where
  "parse_number s =
     (let neg = fst (parse_minus s);
          ip = fst (parse_int (snd (parse_minus s)));
          s2 = snd (parse_int (snd (parse_minus s)))
      in if ip = [] then None
         else
           (case parse_frac s2 of
              None \<Rightarrow> None
            | Some (fp, s3) \<Rightarrow>
                (case parse_exp s3 of
                   None \<Rightarrow> None
                 | Some (ex, s4) \<Rightarrow>
                     Some (JNum ((if neg then - 1 else 1) * digits_value (ip @ fp))
                                (ex - int (length fp)), s4))))"

text \<open>
  Recursive descent over values, array elements and object members.  The first
  argument bounds the number of nested calls; \<open>JSON_parse\<close> below starts with a bound
  that is never reached (lemma \<open>parse_value_enough_fuel\<close>).  A repeated key keeps
  its first position and takes the last value, as property creation on the result
  object does.
\<close>

fun parse_value :: "nat \<Rightarrow> jsstring \<Rightarrow> presult"
  and parse_elements :: "nat \<Rightarrow> json list \<Rightarrow> jsstring \<Rightarrow> presult"
  and parse_members :: "nat \<Rightarrow> (jsstring \<times> json) list \<Rightarrow> jsstring \<Rightarrow> presult"
where
  "parse_value 0 s = Fuel"
| "parse_value (Suc n) s =
     (case s of
        [] \<Rightarrow> Bad
      | c # cs \<Rightarrow>
          if c = 91 then
            (case skip_ws cs of
               [] \<Rightarrow> Bad
             | d # r \<Rightarrow> if d = 93 then Got (JArr []) r else parse_elements n [] (d # r))
          else if c = 123 then
            (case skip_ws cs of
               [] \<Rightarrow> Bad
             | d # r \<Rightarrow> if d = 125 then Got (JObj []) r else parse_members n [] (d # r))
          else if c = 34 then
            (case parse_chars cs of None \<Rightarrow> Bad | Some (str, r) \<Rightarrow> Got (JStr str) r)
          else if take 4 s = [116, 114, 117, 101] then Got (JBool True) (drop 4 s)
          else if take 5 s = [102, 97, 108, 115, 101] then Got (JBool False) (drop 5 s)
          else if take 4 s = [110, 117, 108, 108] then Got JNull (drop 4 s)
          else if c = 45 \<or> is_digit c then
            (case parse_number s of None \<Rightarrow> Bad | Some (v, r) \<Rightarrow> Got v r)
          else Bad)"
| "parse_elements 0 acc s = Fuel"
| "parse_elements (Suc n) acc s =
     (case parse_value n s of
        Got v r \<Rightarrow>
          (case skip_ws r of
             [] \<Rightarrow> Bad
           | c # r2 \<Rightarrow>
               if c = 44 then parse_elements n (acc @ [v]) (skip_ws r2)
               else if c = 93 then Got (JArr (acc @ [v])) r2
               else Bad)
      | Bad \<Rightarrow> Bad
      | Fuel \<Rightarrow> Fuel)"
| "parse_members 0 acc s = Fuel"
| "parse_members (Suc n) acc s =
     (case s of
        [] \<Rightarrow> Bad
      | q # cs \<Rightarrow>
          if q = 34 then
            (case parse_chars cs of
               None \<Rightarrow> Bad
             | Some (k, r) \<Rightarrow>
                 (case skip_ws r of
                    [] \<Rightarrow> Bad
                  | c # r1 \<Rightarrow>
                      if c = 58 then
                        (case parse_value n (skip_ws r1) of
                           Got v r2 \<Rightarrow>
                             (case skip_ws r2 of
                                [] \<Rightarrow> Bad
                              | d # r3 \<Rightarrow>
                                  if d = 44
                                  then parse_members n (AList.update k v acc) (skip_ws r3)
                                  else if d = 125 then Got (JObj (AList.update k v acc)) r3
                                  else Bad)
                         | Bad \<Rightarrow> Bad
                         | Fuel \<Rightarrow> Fuel)
                      else Bad))
          else Bad)"

text \<open>
  \<open>JSON.parse(text)\<close> for a string argument: \<open>Some v\<close> is the value returned,
  \<open>None\<close> a \<open>SyntaxError\<close>.
\<close>

definition JSON_parse :: "jsstring \<Rightarrow> json option" where
  "JSON_parse s =
     (case parse_value (2 * length s + 1) (skip_ws s) of
        Got v r \<Rightarrow> if skip_ws r = [] then Some v else None
      | Bad \<Rightarrow> None
      | Fuel \<Rightarrow> None)"

section \<open>Runtime operations on values and strings\<close>

text \<open>
  Property access \<open>v[k]\<close> and \<open>v.k\<close> on a value that is neither \<open>null\<close> nor
  \<open>undefined\<close>, for the keys the handlers use (none of them is a prototype
  property): an object yields its own property, an array or a string its element at an
  index key, everything else \<open>undefined\<close>.
\<close>

definition index_of_key :: "jsstring \<Rightarrow> int option" where
  "index_of_key k =
     (if k = [] then None
      else if list_all is_digit k \<and> (if take 1 k = [48] then length k = 1 else True)
      then Some (digits_value k)
      else None)"

definition get_prop :: "json \<Rightarrow> jsstring \<Rightarrow> json option" where
  "get_prop v k =
     (case v of
        JObj kvs \<Rightarrow> map_of kvs k
      | JArr xs \<Rightarrow>
          (case index_of_key k of
             Some i \<Rightarrow> if i < int (length xs) then Some (xs ! nat i) else None
           | None \<Rightarrow> None)
      | JStr str \<Rightarrow>
          (case index_of_key k of
             Some i \<Rightarrow> if i < int (length str) then Some (JStr [str ! nat i]) else None
           | None \<Rightarrow> None)
      | _ \<Rightarrow> None)"

text \<open>Optional chaining \<open>v?.k\<close>: \<open>undefined\<close> when \<open>v\<close> is \<open>null\<close> or \<open>undefined\<close>.\<close>

definition opt_chain :: "json option \<Rightarrow> jsstring \<Rightarrow> json option" where
  "opt_chain v k =
     (case v of
        None \<Rightarrow> None
      | Some JNull \<Rightarrow> None
      | Some w \<Rightarrow> get_prop w k)"

text \<open>Nullish coalescing \<open>v ?? d\<close>.\<close>

definition nullish_or :: "json option \<Rightarrow> json \<Rightarrow> json" where
  "nullish_or v d = (case v of None \<Rightarrow> d | Some JNull \<Rightarrow> d | Some w \<Rightarrow> w)"

text \<open>
  \<open>Object.values\<close>: the values of the integer-index keys in ascending order first,
  then the others in creation order.
\<close>

definition is_array_index :: "jsstring \<Rightarrow> bool" where
  "is_array_index k =
     (case index_of_key k of None \<Rightarrow> False | Some i \<Rightarrow> i < 4294967295)"

definition Object_values :: "(jsstring \<times> json) list \<Rightarrow> json list" where
  "Object_values kvs =
     map snd (sort_key (\<lambda>(k, v). digits_value k) (filter (\<lambda>(k, v). is_array_index k) kvs))
     @ map snd (filter (\<lambda>(k, v). \<not> is_array_index k) kvs)"

definition Array_isArray :: "json \<Rightarrow> bool" where
  "Array_isArray v = (case v of JArr xs \<Rightarrow> True | _ \<Rightarrow> False)"

text \<open>Decimal digits of a non-negative integer.\<close>

function digits_of :: "int \<Rightarrow> jsstring" where
  "digits_of n = (if n < 10 then [48 + n] else digits_of (n div 10) @ [48 + n mod 10])"
  by pat_completeness auto
termination
  by (relation "measure nat") auto

declare digits_of.simps [simp del]

text \<open>
  \<open>Number.prototype.toString\<close> on the decimal \<open>m * 10^e\<close>: \<open>ds\<close> are its significant
  digits and \<open>n\<close> the position of the decimal point after them.
\<close>

definition number_to_string :: "int \<Rightarrow> int \<Rightarrow> jsstring" where
  "number_to_string m e =
     (if m = 0 then [48]
      else
        (let all_ds = digits_of \<bar>m\<bar>;
             zeros = length (takeWhile (\<lambda>c. c = 48) (rev all_ds));
             ds = take (length all_ds - zeros) all_ds;
             k = int (length ds);
             n = int (length all_ds) + e;
             body =
               (if k \<le> n \<and> n \<le> 21 then ds @ replicate (nat (n - k)) 48
                else if 0 < n \<and> n \<le> 21 then take (nat n) ds @ [46] @ drop (nat n) ds
                else if - 6 < n \<and> n \<le> 0 then [48, 46] @ replicate (nat (- n)) 48 @ ds
                else take 1 ds @ (if k = 1 then [] else [46] @ drop 1 ds) @ [101]
                     @ (if n - 1 < 0 then [45] else [43]) @ digits_of \<bar>n - 1\<bar>)
         in (if m < 0 then [45] else []) @ body))"

fun join_with :: "jsstring \<Rightarrow> jsstring list \<Rightarrow> jsstring" where
  "join_with sep [] = []"
| "join_with sep [x] = x"
| "join_with sep (x # y # ys) = x @ sep @ join_with sep (y # ys)"

text \<open>
  \<open>ToString\<close>, the conversion applied when a value is concatenated to a string or
  handed to \<open>JSON.parse\<close>.  An array joins its elements with commas, \<open>null\<close>
  elements giving the empty string.
\<close>

fun ToString :: "json \<Rightarrow> jsstring" where
  "ToString JNull = [110, 117, 108, 108]"
| "ToString (JBool b) = (if b then [116, 114, 117, 101] else [102, 97, 108, 115, 101])"
| "ToString (JNum m e) = number_to_string m e"
| "ToString (JStr s) = s"
| "ToString (JArr xs) =
     join_with [44] (map (\<lambda>x. if x = JNull then [] else ToString x) xs)"
| "ToString (JObj kvs) = [91, 111, 98, 106, 101, 99, 116, 32, 79, 98, 106, 101, 99, 116, 93]"

definition ToString_opt :: "json option \<Rightarrow> jsstring" where
  "ToString_opt v =
     (case v of None \<Rightarrow> [117, 110, 100, 101, 102, 105, 110, 101, 100] | Some w \<Rightarrow> ToString w)"

text \<open>White space in the sense of \<open>\s\<close> and of \<open>String.prototype.trim\<close>.\<close>

definition is_js_space :: "int \<Rightarrow> bool" where
  "is_js_space c =
     (c = 9 \<or> c = 10 \<or> c = 11 \<or> c = 12 \<or> c = 13 \<or> c = 32 \<or> c = 160 \<or> c = 5760
      \<or> (8192 \<le> c \<and> c \<le> 8202) \<or> c = 8232 \<or> c = 8233 \<or> c = 8239 \<or> c = 8287
      \<or> c = 12288 \<or> c = 65279)"

definition trim :: "jsstring \<Rightarrow> jsstring" where
  "trim s = rev (dropWhile is_js_space (rev (dropWhile is_js_space s)))"

definition startsWith :: "jsstring \<Rightarrow> jsstring \<Rightarrow> bool" where
  "startsWith s p = (take (length p) s = p)"

subsection \<open>The two regular expressions of the normalizers\<close>

text \<open>
  \<open>/\[\s*\{[\s\S]*\}\s*\]/\<close>.  \<open>close_len t\<close> is the length of the longest prefix of
  \<open>t\<close> of the form \<open>[\s\S]*\}\s*\]\<close>: the greedy star gives up characters from the
  right until a closing brace followed by white space and a closing bracket is found,
  so the last such brace wins.
\<close>

fun close_len :: "jsstring \<Rightarrow> nat option" where
  "close_len [] = None"
| "close_len (c # cs) =
     (case close_len cs of
        Some n \<Rightarrow> Some (Suc n)
      | None \<Rightarrow>
          if c = 125 \<and> take 1 (dropWhile is_js_space cs) = [93]
          then Some (Suc (Suc (length (takeWhile is_js_space cs))))
          else None)"

text \<open>The match \<open>m[0]\<close> of the array pattern at the leftmost position that has one.\<close>

fun match_array :: "jsstring \<Rightarrow> jsstring option" where
  "match_array [] = None"
| "match_array (c # cs) =
     (if c = 91 \<and> take 1 (dropWhile is_js_space cs) = [123] then
        (case close_len (drop 1 (dropWhile is_js_space cs)) of
           Some n \<Rightarrow> Some (take (Suc (length (takeWhile is_js_space cs)) + 1 + n) (c # cs))
         | None \<Rightarrow> match_array cs)
      else match_array cs)"

text \<open>
  \<open>/```json\s*([\s\S]*?)\s*```/\<close>.  \<open>lazy_group t\<close> is the capture group when the
  text after the opening fence and its white space is \<open>t\<close>: the lazy star stops at the
  first position from which white space and a closing fence follow.
\<close>

fun lazy_group :: "jsstring \<Rightarrow> jsstring option" where
  "lazy_group [] = None"
| "lazy_group (c # cs) =
     (if take 3 (dropWhile is_js_space (c # cs)) = [96, 96, 96] then Some []
      else map_option (\<lambda>g. c # g) (lazy_group cs))"

text \<open>The capture group \<open>m[1]\<close> of the fence pattern at the leftmost matching position.\<close>

fun match_fence :: "jsstring \<Rightarrow> jsstring option" where
  "match_fence [] = None"
| "match_fence (c # cs) =
     (if take 7 (c # cs) = [96, 96, 96, 106, 115, 111, 110] then
        (case lazy_group (dropWhile is_js_space (drop 7 (c # cs))) of
           Some g \<Rightarrow> Some g
         | None \<Rightarrow> match_fence cs)
      else match_fence cs)"

section \<open>Errors and the generation clients\<close>

text \<open>
  The text of an error message.  \<open>EngineText\<close> is a message chosen by the runtime
  (a \<open>SyntaxError\<close> of \<open>JSON.parse\<close>, a \<open>TypeError\<close>, a rejected \<open>fetch\<close>); such
  messages are not empty.  \<open>FileTooLargeText n\<close> is the message of
  \<open>callGeminiWithFileData\<close> for \<open>n\<close> base64 characters.
\<close>

datatype message = Text jsstring | EngineText | FileTooLargeText nat

datatype raw = RawMessage message | RawValue json

text \<open>An error object with the two properties the Groq client attaches.\<close>

datatype js_error =
  JsError (message: message) (rawResponse: "raw option") (statusCode: "int option")

definition engine_error :: js_error where
  "engine_error = JsError EngineText None None"

definition truthy_message :: "message \<Rightarrow> bool" where
  "truthy_message m = (case m of Text t \<Rightarrow> t \<noteq> [] | _ \<Rightarrow> True)"

definition truthy :: "json \<Rightarrow> bool" where
  "truthy v =
     (case v of
        JNull \<Rightarrow> False
      | JBool b \<Rightarrow> b
      | JNum m e \<Rightarrow> m \<noteq> 0
      | JStr t \<Rightarrow> t \<noteq> []
      | _ \<Rightarrow> True)"

definition truthy_raw :: "raw option \<Rightarrow> bool" where
  "truthy_raw r =
     (case r of
        None \<Rightarrow> False
      | Some (RawMessage m) \<Rightarrow> truthy_message m
      | Some (RawValue v) \<Rightarrow> truthy v)"

text \<open>
  What one \<open>fetch\<close> of the provider gives: a rejection (no response), or a response
  with its status and body text.
\<close>

datatype fetch_outcome = NetworkFailure | Response int jsstring

definition res_ok :: "int \<Rightarrow> bool" where
  "res_ok st = (200 \<le> st \<and> st \<le> 299)"

text \<open>What a client does to the outside: provider calls and back-off sleeps, in order.\<close>

datatype event = Fetch nat | Sleep int

text \<open>
  One pass through the body of the retry loop either returns from the function, leaves
  it with an exception, or goes on to the next attempt after sleeping.
\<close>

datatype 'a attempt = Return 'a | Throw js_error | Continue int

text \<open>
  \<open>for (let attempt = 1; attempt <= maxRetries; attempt++) { try ... catch ... }\<close>,
  started at \<open>attempt\<close>.  \<open>fetch k\<close> is the outcome of the provider call made in
  attempt \<open>k\<close>.  \<open>Inr None\<close>: the loop ended without a \<open>return\<close>.
\<close>

function attempts ::
  "(nat \<Rightarrow> nat \<Rightarrow> fetch_outcome \<Rightarrow> 'a attempt) \<Rightarrow> (nat \<Rightarrow> fetch_outcome) \<Rightarrow> nat \<Rightarrow> nat
   \<Rightarrow> (js_error + 'a option) \<times> event list"
where
  "attempts body fetch maxRetries attempt =
     (if attempt \<le> maxRetries then
        (case body maxRetries attempt (fetch attempt) of
           Return v \<Rightarrow> (Inr (Some v), [Fetch attempt])
         | Throw e \<Rightarrow> (Inl e, [Fetch attempt])
         | Continue d \<Rightarrow>
             (case attempts body fetch maxRetries (Suc attempt) of
                (r, es) \<Rightarrow> (r, Fetch attempt # Sleep d # es)))
      else (Inr None, []))"
  by pat_completeness auto
termination
  by (relation "measure (\<lambda>(body, fetch, maxRetries, attempt). Suc maxRetries - attempt)") auto

declare attempts.simps [simp del]

subsection \<open>Gemini\<close>

text \<open>\<open>data.candidates?.[0]?.content?.parts?.[0]?.text ?? "[]"\<close>, for \<open>data\<close> not \<open>null\<close>.\<close>

definition gemini_text :: "json \<Rightarrow> json" where
  "gemini_text data =
     nullish_or
       (opt_chain (opt_chain (opt_chain (opt_chain (opt_chain
          (get_prop data (js ''candidates'')) (js ''0'')) (js ''content'')) (js ''parts''))
          (js ''0'')) (js ''text''))
       (JStr (js ''[]''))"

text \<open>The \<open>try\<close> block of \<open>callGeminiWithText\<close> and \<open>callGeminiWithFileData\<close>.\<close>

definition gemini_try :: "nat \<Rightarrow> nat \<Rightarrow> fetch_outcome \<Rightarrow> json attempt" where
  "gemini_try maxRetries attempt res =
     (case res of
        NetworkFailure \<Rightarrow> Throw engine_error
      | Response st text \<Rightarrow>
          if \<not> res_ok st then
            (if st \<ge> 500 \<and> attempt < maxRetries then Continue (2000 * int attempt)
             else Throw (JsError (Text (js ''Gemini API failed: '' @ text)) None None))
          else
            (case JSON_parse text of
               None \<Rightarrow> Throw engine_error
             | Some data \<Rightarrow>
                 if data = JNull then Throw engine_error else Return (gemini_text data)))"

text \<open>The \<open>catch\<close> block: rethrow on the last attempt, else sleep and go on.\<close>

definition gemini_catch :: "nat \<Rightarrow> nat \<Rightarrow> js_error \<Rightarrow> json attempt" where
  "gemini_catch maxRetries attempt error =
     (if attempt = maxRetries then Throw error else Continue (2000 * int attempt))"

definition gemini_attempt :: "nat \<Rightarrow> nat \<Rightarrow> fetch_outcome \<Rightarrow> json attempt" where
  "gemini_attempt maxRetries attempt res =
     (case gemini_try maxRetries attempt res of
        Throw error \<Rightarrow> gemini_catch maxRetries attempt error
      | Return v \<Rightarrow> Return v
      | Continue d \<Rightarrow> Continue d)"

text \<open>
  \<open>callGeminiWithText\<close>.  The request sent (prompt and study material) is not part
  of the model; the provider's answers are given by \<open>fetch\<close>.  The result is the
  returned value (\<open>None\<close> for \<open>undefined\<close>) or the exception.
\<close>

definition callGeminiWithText ::
  "(nat \<Rightarrow> fetch_outcome) \<Rightarrow> nat \<Rightarrow> (js_error + json option) \<times> event list" where
  "callGeminiWithText fetch maxRetries = attempts gemini_attempt fetch maxRetries 1"

text \<open>
  \<open>callGeminiWithFileData\<close>: \<open>fileData.length * 3 / 4 / (1024 * 1024) > 20\<close> is
  decided exactly on the length.
\<close>

definition callGeminiWithFileData ::
  "jsstring \<Rightarrow> (nat \<Rightarrow> fetch_outcome) \<Rightarrow> nat \<Rightarrow> (js_error + json option) \<times> event list" where
  "callGeminiWithFileData fileData fetch maxRetries =
     (if int (length fileData) * 3 > 20 * 4 * (1024 * 1024)
      then (Inl (JsError (FileTooLargeText (length fileData)) None None), [])
      else attempts gemini_attempt fetch maxRetries 1)"

subsection \<open>Groq\<close>

text \<open>
  \<open>data.choices?.[0]?.message?.content ?? data.choices?.[0]?.message?.content?.[0]?.text
  ?? "[]"\<close> and \<open>data.usage ?? {}\<close>, for \<open>data\<close> not \<open>null\<close>.
\<close>

definition groq_message_content :: "json \<Rightarrow> json option" where
  "groq_message_content data =
     opt_chain (opt_chain (opt_chain (get_prop data (js ''choices'')) (js ''0''))
       (js ''message'')) (js ''content'')"

definition groq_content :: "json \<Rightarrow> json" where
  "groq_content data =
     nullish_or (groq_message_content data)
       (nullish_or (opt_chain (opt_chain (groq_message_content data) (js ''0'')) (js ''text''))
          (JStr (js ''[]'')))"

definition groq_usage :: "json \<Rightarrow> json" where
  "groq_usage data = nullish_or (get_prop data (js ''usage'')) (JObj [])"

definition groq_try :: "nat \<Rightarrow> nat \<Rightarrow> fetch_outcome \<Rightarrow> (json \<times> json) attempt" where
  "groq_try maxRetries attempt res =
     (case res of
        NetworkFailure \<Rightarrow> Throw engine_error
      | Response st text \<Rightarrow>
          if \<not> res_ok st then
            (if st \<ge> 500 \<and> attempt < maxRetries then Continue (2000 * int attempt)
             else Throw (JsError (Text (js ''Groq API failed: '' @ text))
                           (Some (RawMessage (Text text))) (Some st)))
          else
            (case JSON_parse text of
               None \<Rightarrow> Throw engine_error
             | Some data \<Rightarrow>
                 if data = JNull then Throw engine_error
                 else Return (groq_content data, groq_usage data)))"

text \<open>
  The \<open>catch\<close> block: on the last attempt the error is rethrown, after its message
  has been copied into a missing \<open>rawResponse\<close>.
\<close>

definition groq_catch :: "nat \<Rightarrow> nat \<Rightarrow> js_error \<Rightarrow> (json \<times> json) attempt" where
  "groq_catch maxRetries attempt error =
     (if attempt = maxRetries then
        (if truthy_raw (rawResponse error) then Throw error
         else if truthy_message (message error)
         then Throw (JsError (message error) (Some (RawMessage (message error)))
                       (statusCode error))
         else Throw error)
      else Continue (2000 * int attempt))"

definition groq_attempt :: "nat \<Rightarrow> nat \<Rightarrow> fetch_outcome \<Rightarrow> (json \<times> json) attempt" where
  "groq_attempt maxRetries attempt res =
     (case groq_try maxRetries attempt res of
        Throw error \<Rightarrow> groq_catch maxRetries attempt error
      | Return v \<Rightarrow> Return v
      | Continue d \<Rightarrow> Continue d)"

text \<open>
  \<open>callGroqWithText\<close>; \<open>key_set\<close> says whether \<open>GROQ_API_KEY\<close> is defined.  The
  truncation of the study material to \<open>MAX_INPUT_LENGTH\<close> only changes the request.
\<close>

definition callGroqWithText ::
  "bool \<Rightarrow> (nat \<Rightarrow> fetch_outcome) \<Rightarrow> nat \<Rightarrow> (js_error + (json \<times> json) option) \<times> event list"
  where
  "callGroqWithText key_set fetch maxRetries =
     (if \<not> key_set
      then (Inl (JsError (Text (js ''GROQ_API_KEY is not set in the environment'')) None None),
            [])
      else attempts groq_attempt fetch maxRetries 1)"

definition fetches :: "event list \<Rightarrow> nat" where
  "fetches es = length (filter (\<lambda>e. case e of Fetch k \<Rightarrow> True | Sleep d \<Rightarrow> False) es)"

section \<open>Per-user quota (QuotaGate)\<close>

datatype subscription = FREE | PRO

record limits =
  daily_limit :: int

text \<open>The constant table \<open>USER_LIMITS\<close>: 5 files per day for FREE, 50 for PRO.\<close>

fun USER_LIMITS :: "subscription \<Rightarrow> limits" where
  "USER_LIMITS FREE = \<lparr>daily_limit = 5\<rparr>"
| "USER_LIMITS PRO = \<lparr>daily_limit = 50\<rparr>"

text \<open>The usage snapshot that \<open>getUserUsageStatsFromDB\<close> hands to the quota check.\<close>

record usage =
  uploads_today :: int
  daily_reset_at :: instant

datatype limit_type = Daily

record quota_check =
  allowed :: bool
  remaining :: int
  resetTime :: instant

record user_check = quota_check +
  limitType :: "limit_type option"

text \<open>The decision of \<open>checkUserLimits\<close> on the snapshot it has read.\<close>

definition checkUserLimits_on :: "subscription \<Rightarrow> usage \<Rightarrow> user_check" where
  "checkUserLimits_on sub u =
     (let lim = USER_LIMITS sub in
      if uploads_today u \<ge> daily_limit lim
      then \<lparr>allowed = False, remaining = 0, resetTime = daily_reset_at u,
            limitType = Some Daily\<rparr>
      else \<lparr>allowed = True, remaining = daily_limit lim - uploads_today u,
            resetTime = daily_reset_at u, limitType = None\<rparr>)"

subsection \<open>The usage table and its two SQL functions\<close>

text \<open>
  A row of \<open>user_usage_stats\<close>, both columns nullable, and the table keyed by
  \<open>user_id\<close>.
\<close>

type_synonym user_id = jsstring

record usage_row =
  row_uploads_today :: "int option"
  row_daily_reset_at :: "instant option"

type_synonym usage_table = "user_id \<Rightarrow> usage_row option"

text \<open>
  \<open>date_trunc('day', now) + interval '1 day'\<close> in UTC, and equally
  \<open>now.setUTCHours(24, 0, 0, 0)\<close>.
\<close>

definition next_midnight :: "instant \<Rightarrow> instant" where
  "next_midnight now = (now div DAY_MS + 1) * DAY_MS"

text \<open>\<open>current_reset_at IS NULL OR now_time >= current_reset_at\<close>.\<close>

definition reset_due :: "instant \<Rightarrow> usage_row option \<Rightarrow> bool" where
  "reset_due now_time r =
     (case r of
        None \<Rightarrow> True
      | Some row \<Rightarrow>
          (case row_daily_reset_at row of None \<Rightarrow> True | Some t \<Rightarrow> now_time \<ge> t))"

text \<open>
  The SQL function \<open>get_user_usage_stats\<close> run at \<open>now_time\<close>: the rows it returns
  and the table it leaves.  An \<open>UPDATE\<close> for a user without row changes nothing.
\<close>

definition get_user_usage_stats ::
  "user_id \<Rightarrow> instant \<Rightarrow> usage_table \<Rightarrow> (int \<times> instant option) list \<times> usage_table" where
  "get_user_usage_stats user_id_param now_time tbl =
     (let tbl' =
        (if reset_due now_time (tbl user_id_param) then
           (case tbl user_id_param of
              None \<Rightarrow> tbl
            | Some row \<Rightarrow>
                tbl(user_id_param \<mapsto>
                  row\<lparr>row_uploads_today := Some 0,
                      row_daily_reset_at := Some (next_midnight now_time)\<rparr>))
         else tbl)
      in ((case tbl' user_id_param of
             None \<Rightarrow> []
           | Some row \<Rightarrow>
               [(case row_uploads_today row of None \<Rightarrow> 0 | Some n \<Rightarrow> n,
                 row_daily_reset_at row)]),
          tbl'))"

text \<open>The SQL function \<open>increment_upload_count\<close> run at \<open>now_time\<close>.\<close>

definition increment_upload_count :: "user_id \<Rightarrow> instant \<Rightarrow> usage_table \<Rightarrow> usage_table" where
  "increment_upload_count user_id_param now_time tbl =
     (case tbl user_id_param of
        None \<Rightarrow> tbl
      | Some row \<Rightarrow>
          if reset_due now_time (Some row) then
            tbl(user_id_param \<mapsto>
              row\<lparr>row_uploads_today := Some 1,
                  row_daily_reset_at := Some (next_midnight now_time)\<rparr>)
          else
            tbl(user_id_param \<mapsto>
              row\<lparr>row_uploads_today :=
                    Some ((case row_uploads_today row of None \<Rightarrow> 0 | Some n \<Rightarrow> n) + 1)\<rparr>))"

text \<open>
  The \<open>uploads_today\<close> that \<open>get_user_usage_stats\<close> reports for a user at
  \<open>now_time\<close>: the count of the row it returns, 0 when it returns none.
\<close>

definition uploads_today_read :: "user_id \<Rightarrow> instant \<Rightarrow> usage_table \<Rightarrow> int" where
  "uploads_today_read user_id_param now_time tbl =
     (case fst (get_user_usage_stats user_id_param now_time tbl) of
        [] \<Rightarrow> 0
      | (n, t) # rest \<Rightarrow> n)"

subsection \<open>The handlers' access to the database\<close>

text \<open>
  How a call of the database client ends: it works, it resolves with an \<open>error\<close>, or
  the promise rejects.  A call that does not work leaves the table as it was.
\<close>

datatype fault = NoFault | ErrorResult | Rejects

text \<open>
  The outside of one request, as far as the database is concerned: how each call ends,
  the database's clock at the two SQL functions, and the handler's own clock where it
  computes a default reset time or does the increment by hand.
\<close>

record db_env =
  stats_rpc :: fault
  stats_select :: fault
  db_now_stats :: instant
  now_stats :: instant
  inc_rpc :: fault
  inc_select :: fault
  inc_update :: fault
  db_now_inc :: instant
  now_inc :: instant

text \<open>\<open>x || 0\<close> on a nullable integer column.\<close>

definition or_zero :: "int option \<Rightarrow> int" where
  "or_zero x = (case x of None \<Rightarrow> 0 | Some n \<Rightarrow> n)"

definition default_usage :: "instant \<Rightarrow> usage" where
  "default_usage now = \<lparr>uploads_today = 0, daily_reset_at = now + DAY_MS\<rparr>"

definition or_default_reset :: "instant option \<Rightarrow> instant \<Rightarrow> instant" where
  "or_default_reset t now = (case t of None \<Rightarrow> now + DAY_MS | Some r \<Rightarrow> r)"

text \<open>\<open>getUserUsageStatsFromDB\<close>: the snapshot and the table afterwards.\<close>

definition getUserUsageStatsFromDB ::
  "user_id \<Rightarrow> db_env \<Rightarrow> usage_table \<Rightarrow> usage \<times> usage_table" where
  "getUserUsageStatsFromDB userId e tbl =
     (case stats_rpc e of
        Rejects \<Rightarrow> (default_usage (now_stats e), tbl)
      | ErrorResult \<Rightarrow>
          (case stats_select e of
             NoFault \<Rightarrow>
               (case tbl userId of
                  None \<Rightarrow> (default_usage (now_stats e), tbl)
                | Some row \<Rightarrow>
                    (\<lparr>uploads_today = or_zero (row_uploads_today row),
                      daily_reset_at = or_default_reset (row_daily_reset_at row) (now_stats e)\<rparr>,
                     tbl))
           | _ \<Rightarrow> (default_usage (now_stats e), tbl))
      | NoFault \<Rightarrow>
          (case get_user_usage_stats userId (db_now_stats e) tbl of
             ([], tbl') \<Rightarrow> (default_usage (now_stats e), tbl')
           | ((n, t) # rest, tbl') \<Rightarrow>
               (\<lparr>uploads_today = or_zero (Some n),
                 daily_reset_at = or_default_reset t (now_stats e)\<rparr>, tbl')))"

definition checkUserLimits ::
  "user_id \<Rightarrow> subscription \<Rightarrow> db_env \<Rightarrow> usage_table \<Rightarrow> user_check \<times> usage_table" where
  "checkUserLimits userId sub e tbl =
     (case getUserUsageStatsFromDB userId e tbl of
        (u, tbl') \<Rightarrow> (checkUserLimits_on sub u, tbl'))"

text \<open>
  \<open>incrementUserUsage\<close>: the RPC, and when it resolves with an error the update by
  hand; every failure is swallowed.
\<close>

definition incrementUserUsage :: "user_id \<Rightarrow> db_env \<Rightarrow> usage_table \<Rightarrow> usage_table" where
  "incrementUserUsage userId e tbl =
     (case inc_rpc e of
        Rejects \<Rightarrow> tbl
      | NoFault \<Rightarrow> increment_upload_count userId (db_now_inc e) tbl
      | ErrorResult \<Rightarrow>
          (case inc_select e of
             NoFault \<Rightarrow>
               (case tbl userId of
                  None \<Rightarrow> tbl
                | Some row \<Rightarrow>
                    if inc_update e \<noteq> NoFault then tbl
                    else if now_inc e \<ge> (case row_daily_reset_at row of None \<Rightarrow> 0 | Some t \<Rightarrow> t)
                    then tbl(userId \<mapsto>
                           row\<lparr>row_uploads_today := Some 1,
                               row_daily_reset_at := Some (next_midnight (now_inc e))\<rparr>)
                    else tbl(userId \<mapsto>
                           row\<lparr>row_uploads_today := Some (or_zero (row_uploads_today row) + 1)\<rparr>))
           | _ \<Rightarrow> tbl))"

text \<open>
  \<open>getUserSubscription\<close>, on the outcome of its \<open>.single()\<close> query for the user's
  active subscription: the \<open>plan_type\<close> of the row found, an error (also when there
  is not exactly one row), or a rejection.
\<close>

datatype subscription_query = PlanType jsstring | QueryError | QueryRejects

definition getUserSubscription :: "subscription_query \<Rightarrow> subscription" where
  "getUserSubscription q =
     (case q of PlanType p \<Rightarrow> if p = js ''pro'' then PRO else FREE | _ \<Rightarrow> FREE)"

section \<open>Global capacity (GlobalCapacityGuard)\<close>

record global_usage_state =
  globalUsageCount :: int
  globalUsageResetTime :: instant

definition MAX_GLOBAL_USAGE :: int where
  "MAX_GLOBAL_USAGE = 500000"

text \<open>\<open>checkGlobalUsage\<close> at \<open>Date.now() = now\<close>: the answer and the counter afterwards.\<close>

definition checkGlobalUsage ::
  "instant \<Rightarrow> global_usage_state \<Rightarrow> quota_check \<times> global_usage_state" where
  "checkGlobalUsage now g =
     (let g' = (if now > globalUsageResetTime g
                then \<lparr>globalUsageCount = 0, globalUsageResetTime = now + 30 * DAY_MS\<rparr>
                else g)
      in if globalUsageCount g' \<ge> MAX_GLOBAL_USAGE
         then (\<lparr>allowed = False, remaining = 0, resetTime = globalUsageResetTime g'\<rparr>, g')
         else (\<lparr>allowed = True, remaining = MAX_GLOBAL_USAGE - globalUsageCount g',
                resetTime = globalUsageResetTime g'\<rparr>, g'))"

definition incrementGlobalUsage :: "global_usage_state \<Rightarrow> global_usage_state" where
  "incrementGlobalUsage g = g\<lparr>globalUsageCount := globalUsageCount g + 1\<rparr>"

section \<open>The content cache (ContentCache)\<close>

text \<open>
  \<open>mcqCache\<close> is a \<open>Map\<close>: an association list in insertion order, where setting
  a present key replaces its value in place.
\<close>

record cache_entry =
  cached_mcqs :: "json list"
  timestamp :: instant

type_synonym mcq_cache = "(jsstring \<times> cache_entry) list"

definition CACHE_DURATION :: int where
  "CACHE_DURATION = 30 * 60 * 1000"

text \<open>\<open>ToInt32\<close>, the result of the bit operations \<open><<\<close> and \<open>&\<close>.\<close>

definition toInt32 :: "int \<Rightarrow> int" where
  "toInt32 x = (x + 2147483648) mod 4294967296 - 2147483648"

text \<open>\<open>Number.prototype.toString(36)\<close> on a non-negative integer.\<close>

definition digit36 :: "int \<Rightarrow> int" where
  "digit36 d = (if d < 10 then 48 + d else 87 + d)"

function toString36 :: "int \<Rightarrow> jsstring" where
  "toString36 n =
     (if n < 36 then [digit36 n] else toString36 (n div 36) @ [digit36 (n mod 36)])"
  by pat_completeness auto
termination
  by (relation "measure nat") auto

declare toString36.simps [simp del]

definition generateFileHash :: "jsstring \<Rightarrow> jsstring" where
  "generateFileHash fileData =
     toString36 \<bar>foldl (\<lambda>hash char. toInt32 (toInt32 (hash * 32) - hash + char)) 0 fileData\<bar>"

text \<open>\<open>getCachedMCQs\<close> at \<open>Date.now() = now\<close>: the result and the cache afterwards.\<close>

definition getCachedMCQs ::
  "jsstring \<Rightarrow> instant \<Rightarrow> mcq_cache \<Rightarrow> json list option \<times> mcq_cache" where
  "getCachedMCQs fileHash now cache =
     (case map_of cache fileHash of
        None \<Rightarrow> (None, cache)
      | Some cached \<Rightarrow>
          if now - timestamp cached < CACHE_DURATION then (Some (cached_mcqs cached), cache)
          else (None, AList.delete fileHash cache))"

text \<open>
  \<open>cacheMCQs\<close>; the function runs without interruption and both of its clock reads
  give \<open>now\<close>.
\<close>

definition cacheMCQs :: "jsstring \<Rightarrow> json list \<Rightarrow> instant \<Rightarrow> mcq_cache \<Rightarrow> mcq_cache" where
  "cacheMCQs fileHash mcqs now cache =
     (let cache' = AList.update fileHash \<lparr>cached_mcqs = mcqs, timestamp = now\<rparr> cache
      in if int (length cache') > 1000
         then filter (\<lambda>(key, v). \<not> now - timestamp v > CACHE_DURATION) cache'
         else cache')"

section \<open>Normalizing the provider's output (ResponseNormalizer)\<close>

subsection \<open>Gemini handler\<close>

definition gemini_invalid_json :: "json option \<Rightarrow> js_error" where
  "gemini_invalid_json geminiRaw =
     JsError (Text (js ''Gemini did not return valid JSON. Raw response: ''
                    @ ToString_opt geminiRaw)) None None"

definition gemini_not_array :: "json option \<Rightarrow> js_error" where
  "gemini_not_array geminiRaw =
     JsError (Text (js ''Gemini response is not an array: '' @ ToString_opt geminiRaw))
       None None"

text \<open>
  The nested \<open>try\<close>/\<open>catch\<close> that assigns \<open>mcqs\<close>: direct parse, then the fenced
  block, then the array pattern.  A raw value that is not a string has no \<open>match\<close>
  method, so its fallback ends in the inner \<open>catch\<close>.
\<close>

definition gemini_array_fallback :: "json option \<Rightarrow> jsstring \<Rightarrow> js_error + json" where
  "gemini_array_fallback geminiRaw t =
     (case match_array t of
        Some a \<Rightarrow>
          (case JSON_parse a of
             Some v \<Rightarrow> Inr v
           | None \<Rightarrow> Inl (gemini_invalid_json geminiRaw))
      | None \<Rightarrow> Inl (gemini_invalid_json geminiRaw))"

definition gemini_extract :: "json option \<Rightarrow> js_error + json" where
  "gemini_extract geminiRaw =
     (case JSON_parse (ToString_opt geminiRaw) of
        Some v \<Rightarrow> Inr v
      | None \<Rightarrow>
          (case geminiRaw of
             Some (JStr t) \<Rightarrow>
               (case match_fence t of
                  Some g \<Rightarrow>
                    if g = [] then gemini_array_fallback geminiRaw t
                    else
                      (case JSON_parse (trim g) of
                         Some v \<Rightarrow> Inr v
                       | None \<Rightarrow> Inl (gemini_invalid_json geminiRaw))
                | None \<Rightarrow> gemini_array_fallback geminiRaw t)
           | _ \<Rightarrow> Inl (gemini_invalid_json geminiRaw)))"

text \<open>The extraction followed by the \<open>Array.isArray\<close> check: the MCQ list, or the exception.\<close>

definition normalize_gemini :: "json option \<Rightarrow> js_error + json list" where
  "normalize_gemini geminiRaw =
     (case gemini_extract geminiRaw of
        Inl err \<Rightarrow> Inl err
      | Inr v \<Rightarrow>
          (case v of
             JArr mcqs \<Rightarrow> Inr mcqs
           | _ \<Rightarrow> Inl (gemini_not_array geminiRaw)))"

subsection \<open>Groq handlers\<close>

definition possibleKeys :: "jsstring list" where
  "possibleKeys =
     [js ''mcqs'', js ''questions'', js ''items'', js ''data'', js ''results'', js ''array'']"

text \<open>The first loop: \<open>mcqs\<close> after it, still empty when no key holds an array.\<close>

fun first_array_key :: "jsstring list \<Rightarrow> (jsstring \<times> json) list \<Rightarrow> json list" where
  "first_array_key [] parsed = []"
| "first_array_key (key # keys) parsed =
     (case map_of parsed key of
        Some (JArr xs) \<Rightarrow> xs
      | _ \<Rightarrow> first_array_key keys parsed)"

text \<open>The second loop, run on \<open>Object.values(parsed)\<close>: the first value that is an array.\<close>

fun first_array_value :: "json list \<Rightarrow> json list option" where
  "first_array_value [] = None"
| "first_array_value (v # vs) =
     (case v of JArr xs \<Rightarrow> Some xs | _ \<Rightarrow> first_array_value vs)"

text \<open>
  The \<open>try\<close> block: \<open>Some mcqs\<close> when it completes, \<open>None\<close> when it throws (a
  \<open>SyntaxError\<close>, no non-empty array in the object, or a value that is neither array
  nor object).
\<close>

definition groq_try_parse :: "json \<Rightarrow> json list option" where
  "groq_try_parse groqRaw =
     (case JSON_parse (ToString groqRaw) of
        None \<Rightarrow> None
      | Some (JArr xs) \<Rightarrow> Some xs
      | Some (JObj parsed) \<Rightarrow>
          (let mcqs = first_array_key possibleKeys parsed;
               mcqs' = (if length mcqs = 0
                        then (case first_array_value (Object_values parsed) of
                                Some xs \<Rightarrow> xs
                              | None \<Rightarrow> mcqs)
                        else mcqs)
           in if length mcqs' = 0 then None else Some mcqs')
      | Some _ \<Rightarrow> None)"

definition groq_invalid_json :: "json \<Rightarrow> js_error" where
  "groq_invalid_json groqRaw =
     JsError (Text (js ''Groq did not return valid JSON'')) (Some (RawValue groqRaw)) None"

definition groq_not_array :: "json \<Rightarrow> js_error" where
  "groq_not_array groqRaw =
     JsError (Text (js ''Groq response is not an array'')) (Some (RawValue groqRaw)) None"

text \<open>The whole \<open>try\<close>/\<open>catch\<close>, with the array pattern as the only fallback.\<close>

definition groq_extract :: "json \<Rightarrow> js_error + json" where
  "groq_extract groqRaw =
     (case groq_try_parse groqRaw of
        Some mcqs \<Rightarrow> Inr (JArr mcqs)
      | None \<Rightarrow>
          (case groqRaw of
             JStr t \<Rightarrow>
               (case match_array t of
                  Some a \<Rightarrow>
                    (case JSON_parse a of
                       Some v \<Rightarrow> Inr v
                     | None \<Rightarrow> Inl (groq_invalid_json groqRaw))
                | None \<Rightarrow> Inl (groq_invalid_json groqRaw))
           | _ \<Rightarrow> Inl (groq_invalid_json groqRaw)))"

definition normalize_groq :: "json \<Rightarrow> js_error + json list" where
  "normalize_groq groqRaw =
     (case groq_extract groqRaw of
        Inl err \<Rightarrow> Inl err
      | Inr v \<Rightarrow>
          (case v of
             JArr mcqs \<Rightarrow> Inr mcqs
           | _ \<Rightarrow> Inl (groq_not_array groqRaw)))"

section \<open>The request handlers (GenerationOrchestrator)\<close>

text \<open>
  The JSON body with the fields of the declared type \<open>Body\<close> that the handlers read,
  and the request: its method, its \<open>Authorization\<close> header, and what \<open>req.json()\<close>
  gives (\<open>None\<close> when it rejects).
\<close>

record body =
  file_data :: "jsstring option"
  mime_type :: "jsstring option"
  text_content :: "jsstring option"
  text_chunks :: "json list option"

record request =
  req_method :: jsstring
  authorization :: "jsstring option"
  req_json :: "body option"

text \<open>What \<open>supabaseClient.auth.getUser(token)\<close> gives.\<close>

datatype auth_result = AuthUser user_id | AuthError | AuthRejects

text \<open>
  Everything else a request gets from outside: the clock at the global check, at the
  cache lookup and at the cache store, the authentication service, the subscription
  query, the database calls, the provider, and whether the Groq key is configured.
\<close>

record env =
  now_global :: instant
  auth :: auth_result
  subscription_query :: subscription_query
  db :: db_env
  now_lookup :: instant
  fetch :: "nat \<Rightarrow> fetch_outcome"
  now_store :: instant
  groq_key_set :: bool

text \<open>The state that outlives a request: the two module variables and the usage table.\<close>

record server_state =
  global_usage :: global_usage_state
  mcqCache :: mcq_cache
  user_usage_stats :: usage_table

text \<open>
  The body of a success response without \<open>generated_at\<close>; \<open>user_limits\<close> is
  (subscription, remaining, reset time), \<open>global_usage_info\<close> (remaining, reset time).
\<close>

record ok_body =
  mcqs :: "json list"
  count :: nat
  cached :: "bool option"
  user_limits :: "(subscription \<times> int \<times> instant) option"
  global_usage_info :: "(int \<times> instant) option"
  model_usage :: "json option"

text \<open>
  The responses.  A 503 carries the global reset time, a 429 the subscription, the limit
  type and the reset time (\<open>remaining\<close> is the constant 0), a 500 the error that
  reached the outer \<open>catch\<close>, from which the body's \<open>error\<close>, \<open>raw_api_response\<close>
  and \<open>status_code\<close> are derived.
\<close>

datatype response =
    MethodNotAllowed
  | ServiceUnavailable instant
  | Unauthorized jsstring
  | TooManyRequests subscription "limit_type option" instant
  | BadRequest jsstring
  | Ok ok_body
  | InternalError js_error

fun status :: "response \<Rightarrow> nat" where
  "status MethodNotAllowed = 405"
| "status (ServiceUnavailable t) = 503"
| "status (Unauthorized m) = 401"
| "status (TooManyRequests sub lt t) = 429"
| "status (BadRequest m) = 400"
| "status (Ok b) = 200"
| "status (InternalError err) = 500"

definition truthy_text :: "jsstring option \<Rightarrow> bool" where
  "truthy_text x = (case x of None \<Rightarrow> False | Some t \<Rightarrow> t \<noteq> [])"

definition text_of :: "jsstring option \<Rightarrow> jsstring" where
  "text_of x = (case x of None \<Rightarrow> [] | Some t \<Rightarrow> t)"

text \<open>The header check and the token verification, shared by the three handlers.\<close>

definition authenticate :: "request \<Rightarrow> env \<Rightarrow> response + user_id" where
  "authenticate req e =
     (if truthy_text (authorization req)
         \<and> startsWith (text_of (authorization req)) (js ''Bearer '')
      then
        (case auth e of
           AuthRejects \<Rightarrow> Inl (InternalError engine_error)
         | AuthError \<Rightarrow> Inl (Unauthorized (js ''Unauthorized: Invalid token''))
         | AuthUser user \<Rightarrow> Inr user)
      else Inl (Unauthorized (js ''Unauthorized: Missing or invalid token'')))"

subsection \<open>The Gemini handler\<close>

text \<open>Step 8, the provider call: by text when \<open>text_content\<close> is given, else by file.\<close>

definition gemini_call :: "body \<Rightarrow> env \<Rightarrow> (js_error + json option) \<times> event list" where
  "gemini_call b e =
     (if truthy_text (text_content b) then callGeminiWithText (fetch e) 3
      else callGeminiWithFileData (text_of (file_data b)) (fetch e) 3)"

text \<open>Steps 8 to 10: provider call, normalization, usage commit, cache store.\<close>

definition gemini_generate ::
  "body \<Rightarrow> jsstring \<Rightarrow> user_id \<Rightarrow> subscription \<Rightarrow> user_check \<Rightarrow> quota_check \<Rightarrow> env
   \<Rightarrow> server_state \<Rightarrow> (response \<times> server_state) \<times> event list" where
  "gemini_generate b contentHash user sub userLimits globalUsage e st =
     (case gemini_call b e of
        (Inl err, es) \<Rightarrow> ((InternalError err, st), es)
      | (Inr geminiRaw, es) \<Rightarrow>
          (case normalize_gemini geminiRaw of
             Inl err \<Rightarrow> ((InternalError err, st), es)
           | Inr m \<Rightarrow>
               ((Ok \<lparr>mcqs = m, count = length m, cached = Some False,
                     user_limits = Some (sub, remaining userLimits - 1, resetTime userLimits),
                     global_usage_info =
                       Some (remaining globalUsage - 1, resetTime globalUsage),
                     model_usage = None\<rparr>,
                 st\<lparr>global_usage := incrementGlobalUsage (global_usage st),
                    user_usage_stats := incrementUserUsage user (db e) (user_usage_stats st),
                    mcqCache := cacheMCQs contentHash m (now_store e) (mcqCache st)\<rparr>),
                es)))"

text \<open>Steps 5 to 7: the body, the content hash and the cache lookup.\<close>

definition gemini_admitted ::
  "request \<Rightarrow> user_id \<Rightarrow> subscription \<Rightarrow> user_check \<Rightarrow> quota_check \<Rightarrow> env
   \<Rightarrow> server_state \<Rightarrow> (response \<times> server_state) \<times> event list" where
  "gemini_admitted req user sub userLimits globalUsage e st =
     (case req_json req of
        None \<Rightarrow> ((InternalError engine_error, st), [])
      | Some b \<Rightarrow>
          if \<not> truthy_text (file_data b) \<and> \<not> truthy_text (text_content b)
          then ((BadRequest (js ''Either file_data or text_content is required''), st), [])
          else if truthy_text (file_data b) \<and> \<not> truthy_text (mime_type b)
          then ((BadRequest (js ''mime_type is required when file_data is provided''), st), [])
          else
            (let contentHash =
                   generateFileHash
                     (if truthy_text (text_content b) then text_of (text_content b)
                      else text_of (file_data b))
             in case getCachedMCQs contentHash (now_lookup e) (mcqCache st) of
                  (Some cachedMCQs, cache') \<Rightarrow>
                    ((Ok \<lparr>mcqs = cachedMCQs, count = length cachedMCQs, cached = Some True,
                          user_limits = Some (sub, remaining userLimits, resetTime userLimits),
                          global_usage_info =
                            Some (remaining globalUsage, resetTime globalUsage),
                          model_usage = None\<rparr>,
                      st\<lparr>mcqCache := cache'\<rparr>), [])
                | (None, cache') \<Rightarrow>
                    gemini_generate b contentHash user sub userLimits globalUsage e
                      (st\<lparr>mcqCache := cache'\<rparr>)))"

text \<open>Steps 2 to 4: authorization, subscription and the per-user limit.\<close>

definition gemini_authorized ::
  "request \<Rightarrow> quota_check \<Rightarrow> env \<Rightarrow> server_state
   \<Rightarrow> (response \<times> server_state) \<times> event list" where
  "gemini_authorized req globalUsage e st =
     (case authenticate req e of
        Inl resp \<Rightarrow> ((resp, st), [])
      | Inr user \<Rightarrow>
          (let sub = getUserSubscription (subscription_query e) in
           case checkUserLimits user sub (db e) (user_usage_stats st) of
             (userLimits, tbl') \<Rightarrow>
               if \<not> allowed userLimits
               then ((TooManyRequests sub (limitType userLimits) (resetTime userLimits),
                      st\<lparr>user_usage_stats := tbl'\<rparr>), [])
               else gemini_admitted req user sub userLimits globalUsage e
                      (st\<lparr>user_usage_stats := tbl'\<rparr>)))"

text \<open>
  The handler: the method check, then step 1, the global usage check, then the rest.
  The result is the response, the state left behind, and the provider calls and sleeps
  made on the way.
\<close>

definition serve_gemini ::
  "request \<Rightarrow> env \<Rightarrow> server_state \<Rightarrow> (response \<times> server_state) \<times> event list" where
  "serve_gemini req e st =
     (if req_method req \<noteq> js ''POST'' then ((MethodNotAllowed, st), [])
      else
        (case checkGlobalUsage (now_global e) (global_usage st) of
           (globalUsage, g') \<Rightarrow>
             if \<not> allowed globalUsage
             then ((ServiceUnavailable (resetTime globalUsage), st\<lparr>global_usage := g'\<rparr>), [])
             else gemini_authorized req globalUsage e (st\<lparr>global_usage := g'\<rparr>)))"

subsection \<open>The Groq handlers\<close>

text \<open>
  \<open>sanitizedChunks\<close>: the string elements of \<open>text_chunks\<close>, trimmed, the empty ones
  dropped; and the test that neither they nor \<open>text_content\<close> give any material.
\<close>

definition sanitizedChunks :: "body \<Rightarrow> jsstring list" where
  "sanitizedChunks b =
     (case text_chunks b of
        None \<Rightarrow> []
      | Some chunks \<Rightarrow>
          filter (\<lambda>chunk. length chunk > 0)
            (map trim (List.map_filter (\<lambda>v. case v of JStr t \<Rightarrow> Some t | _ \<Rightarrow> None) chunks)))"

definition no_material :: "body \<Rightarrow> bool" where
  "no_material b =
     (\<not> truthy_text (map_option trim (text_content b)) \<and> length (sanitizedChunks b) = 0)"

text \<open>
  The Groq handler without quota (\<open>generate-mcqs-groq\<close>).  When the client returns
  \<open>undefined\<close> the destructuring of its result throws.
\<close>

definition serve_groq :: "request \<Rightarrow> env \<Rightarrow> response \<times> event list" where
  "serve_groq req e =
     (if req_method req \<noteq> js ''POST'' then (MethodNotAllowed, [])
      else
        (case authenticate req e of
           Inl resp \<Rightarrow> (resp, [])
         | Inr user \<Rightarrow>
             (case req_json req of
                None \<Rightarrow> (InternalError engine_error, [])
              | Some b \<Rightarrow>
                  if no_material b
                  then (BadRequest (js ''text_content or text_chunks is required''), [])
                  else
                    (case callGroqWithText (groq_key_set e) (fetch e) 3 of
                       (Inl err, es) \<Rightarrow> (InternalError err, es)
                     | (Inr None, es) \<Rightarrow> (InternalError engine_error, es)
                     | (Inr (Some (groqRaw, usage)), es) \<Rightarrow>
                         (case normalize_groq groqRaw of
                            Inl err \<Rightarrow> (InternalError err, es)
                          | Inr m \<Rightarrow>
                              (Ok \<lparr>mcqs = m, count = length m, cached = None,
                                   user_limits = None, global_usage_info = None,
                                   model_usage = Some usage\<rparr>, es))))))"

text \<open>
  The Groq handler with the daily quota.  Its client throws after the loop instead of
  returning \<open>undefined\<close>.
\<close>

definition max_retries_exceeded :: js_error where
  "max_retries_exceeded =
     JsError (Text (js ''Max retries exceeded without returning a result'')) None None"

definition groq_limits_generate ::
  "user_id \<Rightarrow> subscription \<Rightarrow> user_check \<Rightarrow> env \<Rightarrow> usage_table
   \<Rightarrow> (response \<times> usage_table) \<times> event list" where
  "groq_limits_generate user sub userLimits e tbl =
     (case callGroqWithText (groq_key_set e) (fetch e) 3 of
        (Inl err, es) \<Rightarrow> ((InternalError err, tbl), es)
      | (Inr None, es) \<Rightarrow> ((InternalError max_retries_exceeded, tbl), es)
      | (Inr (Some (groqRaw, usage)), es) \<Rightarrow>
          (case normalize_groq groqRaw of
             Inl err \<Rightarrow> ((InternalError err, tbl), es)
           | Inr m \<Rightarrow>
               ((Ok \<lparr>mcqs = m, count = length m, cached = None,
                     user_limits = Some (sub, remaining userLimits - 1, resetTime userLimits),
                     global_usage_info = None, model_usage = Some usage\<rparr>,
                 incrementUserUsage user (db e) tbl), es)))"

definition serve_groq_limits ::
  "request \<Rightarrow> env \<Rightarrow> usage_table \<Rightarrow> (response \<times> usage_table) \<times> event list" where
  "serve_groq_limits req e tbl =
     (if req_method req \<noteq> js ''POST'' then ((MethodNotAllowed, tbl), [])
      else
        (case authenticate req e of
           Inl resp \<Rightarrow> ((resp, tbl), [])
         | Inr user \<Rightarrow>
             (let sub = getUserSubscription (subscription_query e) in
              case checkUserLimits user sub (db e) tbl of
                (userLimits, tbl') \<Rightarrow>
                  if \<not> allowed userLimits
                  then ((TooManyRequests sub (limitType userLimits) (resetTime userLimits),
                         tbl'), [])
                  else
                    (case req_json req of
                       None \<Rightarrow> ((InternalError engine_error, tbl'), [])
                     | Some b \<Rightarrow>
                         if no_material b
                         then ((BadRequest (js ''text_content or text_chunks is required''),
                                tbl'), [])
                         else groq_limits_generate user sub userLimits e tbl'))))"

section \<open>Example requests, environments and states\<close>

text \<open>Concrete inputs on which the properties below are instantiated.\<close>

definition always :: "fetch_outcome \<Rightarrow> nat \<Rightarrow> fetch_outcome" where
  "always r k = r"

definition twice_then :: "fetch_outcome \<Rightarrow> fetch_outcome \<Rightarrow> nat \<Rightarrow> fetch_outcome" where
  "twice_then r r' k = (if k < 3 then r else r')"

text \<open>A string as a JSON string literal, and the two envelopes around a payload.\<close>

definition json_quote :: "jsstring \<Rightarrow> jsstring" where
  "json_quote t = [34] @ concat (map (\<lambda>c. if c = 34 \<or> c = 92 then [92, c] else [c]) t) @ [34]"

definition gemini_envelope :: "jsstring \<Rightarrow> jsstring" where
  "gemini_envelope t =
     js ''{\"candidates\":[{\"content\":{\"parts\":[{\"text\":'' @ json_quote t @ js ''}]}}]}''"

definition groq_envelope :: "jsstring \<Rightarrow> jsstring" where
  "groq_envelope t =
     js ''{\"choices\":[{\"message\":{\"content\":'' @ json_quote t @ js ''}}]}''"

definition ex_user :: user_id where
  "ex_user = js ''u1''"

definition ex_body :: body where
  "ex_body = \<lparr>file_data = None, mime_type = None, text_content = Some (js ''study''),
              text_chunks = None\<rparr>"

definition ex_request :: request where
  "ex_request = \<lparr>req_method = js ''POST'', authorization = Some (js ''Bearer tok''),
                 req_json = Some ex_body\<rparr>"

definition ex_request_no_token :: request where
  "ex_request_no_token = \<lparr>req_method = js ''POST'', authorization = None,
                          req_json = Some ex_body\<rparr>"

definition ex_db :: db_env where
  "ex_db = \<lparr>stats_rpc = NoFault, stats_select = NoFault, db_now_stats = 1000,
            now_stats = 1000, inc_rpc = NoFault, inc_select = NoFault, inc_update = NoFault,
            db_now_inc = 2000, now_inc = 2000\<rparr>"

definition ex_env :: "(nat \<Rightarrow> fetch_outcome) \<Rightarrow> env" where
  "ex_env f = \<lparr>now_global = 900, auth = AuthUser ex_user,
               subscription_query = PlanType (js ''free''), db = ex_db, now_lookup = 1100,
               fetch = f, now_store = 1900, groq_key_set = True\<rparr>"

text \<open>The user's row with \<open>n\<close> uploads and reset time \<open>r\<close>.\<close>

definition ex_table :: "int \<Rightarrow> instant \<Rightarrow> usage_table" where
  "ex_table n r =
     Map.empty(ex_user \<mapsto> \<lparr>row_uploads_today = Some n, row_daily_reset_at = Some r\<rparr>)"

text \<open>A state with \<open>g\<close> global generations, the given cache and that row.\<close>

definition ex_state :: "int \<Rightarrow> mcq_cache \<Rightarrow> int \<Rightarrow> instant \<Rightarrow> server_state" where
  "ex_state g c n r =
     \<lparr>global_usage = \<lparr>globalUsageCount = g, globalUsageResetTime = 5000\<rparr>,
      mcqCache = c, user_usage_stats = ex_table n r\<rparr>"

text \<open>An element with three options and answer index 7, and the text of an array of it.\<close>

definition bad_mcq :: json where
  "bad_mcq =
     JObj [(js ''question'', JStr (js ''Q'')),
           (js ''options'', JArr [JStr (js ''A''), JStr (js ''B''), JStr (js ''C'')]),
           (js ''answer_index'', JNum 7 0)]"




text \<open>A cache that holds a list for the content of \<open>ex_body\<close>.\<close>

definition ex_cache :: mcq_cache where
  "ex_cache = [(generateFileHash (js ''study''), \<lparr>cached_mcqs = [bad_mcq], timestamp = 1000\<rparr>)]"



text \<open>What a response shows of the MCQ list.\<close>

definition response_mcqs :: "response \<Rightarrow> json list option" where
  "response_mcqs r = (case r of Ok b \<Rightarrow> Some (mcqs b) | _ \<Rightarrow> None)"

section \<open>Properties\<close>

subsection \<open>The parser never runs out of fuel\<close>

lemma skip_ws_length: "length (skip_ws s) \<le> length s"
  by (simp add: skip_ws_def length_dropWhile_le)

lemma parse_chars_shorter: "parse_chars cs = Some (a, r) \<Longrightarrow> length r < length cs"
proof (induction cs arbitrary: a r rule: parse_chars.induct)
  case 1
  then show ?case by simp
next
  case (2 c cs)
  show ?case
  proof (cases "c = 34")
    case True
    with "2.prems" show ?thesis by simp
  next
    case nq: False
    show ?thesis
    proof (cases "c = 92")
      case True
      then show ?thesis
        using "2.prems" "2.IH"(1,2) nq
        by (fastforce split: list.splits if_splits option.splits)
    next
      case False
      then show ?thesis
        using "2.prems" "2.IH"(3) nq
        by (fastforce split: if_splits)
    qed
  qed
qed

lemma parse_frac_shorter: "parse_frac s = Some (fp, r) \<Longrightarrow> length r \<le> length s"
  by (auto simp: parse_frac_def split: list.splits if_splits intro: le_SucI length_dropWhile_le)

lemma parse_sign_shorter: "length (snd (parse_sign s)) \<le> length s"
  by (simp add: parse_sign_def split: list.splits)

lemma parse_exp_shorter:
  assumes "parse_exp s = Some (ex, r)"
  shows "length r \<le> length s"
proof (cases s)
  case Nil
  with assms show ?thesis by (simp add: parse_exp_def)
next
  case (Cons c cs)
  show ?thesis
  proof (cases "c = 101 \<or> c = 69")
    case True
    with assms Cons have "r = dropWhile is_digit (snd (parse_sign cs))"
      by (simp add: parse_exp_def Let_def split: if_splits)
    then have "length r \<le> length (snd (parse_sign cs))"
      by (simp add: length_dropWhile_le)
    with parse_sign_shorter [of cs] Cons show ?thesis by simp
  next
    case False
    with assms Cons show ?thesis by (simp add: parse_exp_def)
  qed
qed

lemma parse_minus_shorter: "length (snd (parse_minus s)) \<le> length s"
  by (simp add: parse_minus_def split: list.splits)

lemma parse_int_shorter:
  "fst (parse_int s) \<noteq> [] \<Longrightarrow> length (snd (parse_int s)) < length s"
proof (cases s)
  case Nil
  assume "fst (parse_int s) \<noteq> []"
  with Nil show ?thesis by (simp add: parse_int_def)
next
  case (Cons c cs)
  assume ne: "fst (parse_int s) \<noteq> []"
  show ?thesis
  proof (cases "c = 48")
    case True
    with Cons show ?thesis by (simp add: parse_int_def)
  next
    case False
    with Cons have eq: "parse_int s = (takeWhile is_digit s, dropWhile is_digit s)"
      by (simp add: parse_int_def)
    have "length (takeWhile is_digit s) + length (dropWhile is_digit s) = length s"
      by (metis length_append takeWhile_dropWhile_id)
    moreover from ne eq have "0 < length (takeWhile is_digit s)" by simp
    ultimately have "length (dropWhile is_digit s) < length s" by linarith
    with eq show ?thesis by simp
  qed
qed

lemma parse_number_shorter:
  assumes "parse_number s = Some (v, r)"
  shows "length r < length s"
proof -
  from assms have ne: "fst (parse_int (snd (parse_minus s))) \<noteq> []"
    by (simp add: parse_number_def Let_def split: if_splits)
  with assms obtain fp s3 ex where
    f: "parse_frac (snd (parse_int (snd (parse_minus s)))) = Some (fp, s3)"
    and e: "parse_exp s3 = Some (ex, r)"
    by (simp add: parse_number_def Let_def split: option.splits prod.splits)
  from parse_frac_shorter [OF f] parse_exp_shorter [OF e]
    parse_int_shorter [OF ne] parse_minus_shorter [of s]
  show ?thesis by simp
qed

lemma parse_fuel_aux:
  "(\<forall>s v r. (parse_value n s = Got v r \<longrightarrow> length r < length s)
           \<and> (2 * length s + 1 \<le> n \<longrightarrow> parse_value n s \<noteq> Fuel))
   \<and> (\<forall>acc s v r. (parse_elements n acc s = Got v r \<longrightarrow> length r < length s)
           \<and> (2 * length s + 2 \<le> n \<longrightarrow> parse_elements n acc s \<noteq> Fuel))
   \<and> (\<forall>acc s v r. (parse_members n acc s = Got v r \<longrightarrow> length r < length s)
           \<and> (2 * length s + 2 \<le> n \<longrightarrow> parse_members n acc s \<noteq> Fuel))"
proof (induction n)
  case 0
  show ?case by simp
next
  case (Suc n)
  then have V1: "\<And>s v r. parse_value n s = Got v r \<Longrightarrow> length r < length s"
    and V2: "\<And>s. 2 * length s + 1 \<le> n \<Longrightarrow> parse_value n s \<noteq> Fuel"
    and E1: "\<And>acc s v r. parse_elements n acc s = Got v r \<Longrightarrow> length r < length s"
    and E2: "\<And>acc s. 2 * length s + 2 \<le> n \<Longrightarrow> parse_elements n acc s \<noteq> Fuel"
    and M1: "\<And>acc s v r. parse_members n acc s = Got v r \<Longrightarrow> length r < length s"
    and M2: "\<And>acc s. 2 * length s + 2 \<le> n \<Longrightarrow> parse_members n acc s \<noteq> Fuel"
    by blast+
  have sk: "skip_ws cs = d # t \<Longrightarrow> length t < length cs" for cs d t
    using skip_ws_length [of cs] by simp
  have val1: "length r < length s" if asm: "parse_value (Suc n) s = Got v r" for s v r
  proof (cases s)
    case Nil
    with asm show ?thesis by simp
  next
    case (Cons c cs)
    consider (arr) "c = 91" | (obj) "c \<noteq> 91" "c = 123" | (str) "c \<noteq> 91" "c \<noteq> 123" "c = 34"
      | (other) "c \<noteq> 91" "c \<noteq> 123" "c \<noteq> 34"
      by blast
    then show ?thesis
    proof cases
      case arr
      show ?thesis
      proof (cases "skip_ws cs")
        case Nil
        with asm Cons arr show ?thesis by simp
      next
        case (Cons d t)
        note sk' = sk [OF Cons]
        show ?thesis
        proof (cases "d = 93")
          case True
          with asm \<open>s = c # cs\<close> arr Cons sk' show ?thesis by auto
        next
          case False
          with asm \<open>s = c # cs\<close> arr Cons have "parse_elements n [] (d # t) = Got v r" by simp
          from E1 [OF this] sk' \<open>s = c # cs\<close> show ?thesis by simp
        qed
      qed
    next
      case obj
      show ?thesis
      proof (cases "skip_ws cs")
        case Nil
        with asm Cons obj show ?thesis by simp
      next
        case (Cons d t)
        note sk' = sk [OF Cons]
        show ?thesis
        proof (cases "d = 125")
          case True
          with asm \<open>s = c # cs\<close> obj Cons sk' show ?thesis by auto
        next
          case False
          with asm \<open>s = c # cs\<close> obj Cons have "parse_members n [] (d # t) = Got v r" by simp
          from M1 [OF this] sk' \<open>s = c # cs\<close> show ?thesis by simp
        qed
      qed
    next
      case str
      with asm Cons obtain a where "parse_chars cs = Some (a, r)"
        by (auto split: option.splits)
      from parse_chars_shorter [OF this] Cons show ?thesis by simp
    next
      case other
      have len: "take k s = w \<Longrightarrow> length w = k \<Longrightarrow> 0 < k \<Longrightarrow> length (drop k s) < length s"
        for k w
        using Cons by (cases k) auto
      from asm Cons other have
        "(take 4 s = [116, 114, 117, 101] \<and> r = drop 4 s)
         \<or> (take 5 s = [102, 97, 108, 115, 101] \<and> r = drop 5 s)
         \<or> (take 4 s = [110, 117, 108, 108] \<and> r = drop 4 s)
         \<or> parse_number s = Some (v, r)"
        by (auto split: if_splits option.splits)
      then show ?thesis
        using len [of 4 "[116, 114, 117, 101]"] len [of 5 "[102, 97, 108, 115, 101]"]
          len [of 4 "[110, 117, 108, 108]"] parse_number_shorter [of s v r]
        by auto
    qed
  qed
  have val2: "parse_value (Suc n) s \<noteq> Fuel" if fuel: "2 * length s + 1 \<le> Suc n" for s
  proof (cases s)
    case Nil
    then show ?thesis by simp
  next
    case (Cons c cs)
    have e: "parse_elements n [] (d # t) \<noteq> Fuel" if "skip_ws cs = d # t" for d t
      using E2 [of "d # t" "[]"] skip_ws_length [of cs] that fuel Cons by simp
    have m: "parse_members n [] (d # t) \<noteq> Fuel" if "skip_ws cs = d # t" for d t
      using M2 [of "d # t" "[]"] skip_ws_length [of cs] that fuel Cons by simp
    from Cons e m show ?thesis
      by (simp split: list.splits option.splits)
  qed
  have el1: "length r < length s" if asm: "parse_elements (Suc n) acc s = Got v r"
    for acc s v r
  proof -
    from asm obtain w t where w: "parse_value n s = Got w t"
      by (auto split: presult.splits)
    from V1 [OF w] have t: "length t < length s" .
    show ?thesis
    proof (cases "skip_ws t")
      case Nil
      with asm w show ?thesis by simp
    next
      case (Cons c r2)
      from sk [OF Cons] t have r2: "length r2 < length s" by simp
      show ?thesis
      proof (cases "c = 44")
        case True
        with asm w Cons have "parse_elements n (acc @ [w]) (skip_ws r2) = Got v r" by simp
        from E1 [OF this] skip_ws_length [of r2] r2 show ?thesis by simp
      next
        case False
        with asm w Cons r2 show ?thesis by (auto split: if_splits)
      qed
    qed
  qed
  have el2: "parse_elements (Suc n) acc s \<noteq> Fuel" if fuel: "2 * length s + 2 \<le> Suc n"
    for acc s
  proof (cases "parse_value n s")
    case Fuel
    with V2 [of s] fuel show ?thesis by simp
  next
    case Bad
    then show ?thesis by simp
  next
    case (Got w t)
    from V1 [OF Got] have t: "length t < length s" .
    show ?thesis
    proof (cases "skip_ws t")
      case Nil
      with Got show ?thesis by simp
    next
      case (Cons c r2)
      from sk [OF Cons] t have "length r2 + 2 \<le> length s" by simp
      with skip_ws_length [of r2] fuel have "2 * length (skip_ws r2) + 2 \<le> n" by simp
      from E2 [OF this] Got Cons show ?thesis by simp
    qed
  qed
  have key: "length (skip_ws r1) + 3 \<le> length s \<and> q = 34"
    if "s = q # cs" "parse_chars cs = Some (k, r)" "skip_ws r = c # r1"
       "parse_members (Suc n) acc s \<noteq> Bad" for s q cs k r c r1 acc
  proof -
    from that(2) have "length r < length cs" by (rule parse_chars_shorter)
    moreover from sk [OF that(3)] have "length r1 < length r" .
    moreover have "q = 34" using that(1,4) by (auto split: if_splits)
    ultimately show ?thesis using skip_ws_length [of r1] that(1) by simp
  qed
  have me1: "length r < length s" if asm: "parse_members (Suc n) acc s = Got v r"
    for acc s v r
  proof -
    from asm obtain q cs where s: "s = q # cs" and q: "q = 34"
      by (cases s) (auto split: if_splits)
    from asm s q obtain k t where pc: "parse_chars cs = Some (k, t)"
      by (auto split: option.splits)
    from asm s q pc obtain c r1 where c: "skip_ws t = c # r1" and c58: "c = 58"
      by (cases "skip_ws t") (auto split: if_splits)
    from asm have nb: "parse_members (Suc n) acc s \<noteq> Bad" by simp
    from key [OF s pc c nb] have l1: "length (skip_ws r1) + 3 \<le> length s" by simp
    from asm s q pc c c58 obtain w r2 where w: "parse_value n (skip_ws r1) = Got w r2"
      by (auto split: presult.splits)
    from V1 [OF w] l1 have l2: "length r2 + 3 < length s" by simp
    show ?thesis
    proof (cases "skip_ws r2")
      case Nil
      with asm s q pc c c58 w show ?thesis by simp
    next
      case (Cons d r3)
      from sk [OF Cons] l2 have r3: "length r3 < length s" by simp
      show ?thesis
      proof (cases "d = 44")
        case True
        with asm s q pc c c58 w Cons
        have "parse_members n (AList.update k w acc) (skip_ws r3) = Got v r" by simp
        from M1 [OF this] skip_ws_length [of r3] r3 show ?thesis by simp
      next
        case False
        with asm s q pc c c58 w Cons r3 show ?thesis by (auto split: if_splits)
      qed
    qed
  qed
  have me2: "parse_members (Suc n) acc s \<noteq> Fuel" if fuel: "2 * length s + 2 \<le> Suc n"
    for acc s
  proof (rule notI)
    assume asm: "parse_members (Suc n) acc s = Fuel"
    from asm obtain q cs where s: "s = q # cs" and q: "q = 34"
      by (cases s) (auto split: if_splits)
    from asm s q obtain k t where pc: "parse_chars cs = Some (k, t)"
      by (auto split: option.splits)
    from asm s q pc obtain c r1 where c: "skip_ws t = c # r1" and c58: "c = 58"
      by (cases "skip_ws t") (auto split: if_splits)
    from asm have nb: "parse_members (Suc n) acc s \<noteq> Bad" by simp
    from key [OF s pc c nb] have l1: "length (skip_ws r1) + 3 \<le> length s" by simp
    with fuel have "2 * length (skip_ws r1) + 1 \<le> n" by simp
    from V2 [OF this] have nf: "parse_value n (skip_ws r1) \<noteq> Fuel" .
    with asm s q pc c c58 obtain w r2 where w: "parse_value n (skip_ws r1) = Got w r2"
      by (cases "parse_value n (skip_ws r1)") auto
    from V1 [OF w] l1 have l2: "length r2 + 3 < length s" by simp
    show False
    proof (cases "skip_ws r2")
      case Nil
      with asm s q pc c c58 w show ?thesis by simp
    next
      case (Cons d r3)
      from sk [OF Cons] l2 have "length r3 + 2 \<le> length s" by simp
      with skip_ws_length [of r3] fuel have "2 * length (skip_ws r3) + 2 \<le> n" by simp
      from M2 [OF this] asm s q pc c c58 w Cons show ?thesis
        by (auto split: if_splits)
    qed
  qed
  show ?case
    using val1 val2 el1 el2 me1 me2 by blast
qed

lemma parse_value_enough_fuel: "parse_value (2 * length s + 1) (skip_ws s) \<noteq> Fuel"
proof -
  have "2 * length (skip_ws s) + 1 \<le> 2 * length s + 1"
    using skip_ws_length [of s] by simp
  with parse_fuel_aux [of "2 * length s + 1"] show ?thesis by blast
qed

subsection \<open>The quota gate\<close>

lemma daily_limit_values:
  "daily_limit (USER_LIMITS FREE) = 5" "daily_limit (USER_LIMITS PRO) = 50"
  by simp_all

text \<open>
  Claim C1, as amended.  \<open>checkUserLimits\<close> sees the stored row only through the usage
  read.  For a user with a stored row and for both tiers (daily limit 5 for FREE, 50 for
  PRO):
  \<^item> when the read \<open>get_user_usage_stats\<close> works and the stored reset time is still
    ahead, the check rejects exactly when the stored \<open>uploads_today\<close> (null counting
    as 0) has reached the limit; it rejects with \<open>remaining = 0\<close>, limit type
    \<open>daily\<close> and the stored reset time, and admits with
    \<open>remaining = dailyLimit - uploads_today\<close>; the table is unchanged;
  \<^item> when the read works and the stored reset time has passed, the row is reset and the
    request is admitted with the full limit, whatever the stored count;
  \<^item> when the RPC resolves with an error and the direct select works, the decision is
    taken on the stored count as it is, without reset;
  \<^item> when the read fails altogether, the request is admitted with the full limit,
    whatever the stored count.
\<close>

theorem checkUserLimits_on_stored_row:
  assumes row: "tbl userId = Some row"
  shows "(stats_rpc e = NoFault \<and> row_daily_reset_at row = Some t \<and> db_now_stats e < t \<longrightarrow>
            (or_zero (row_uploads_today row) \<ge> daily_limit (USER_LIMITS sub) \<longrightarrow>
               checkUserLimits userId sub e tbl
                 = (\<lparr>allowed = False, remaining = 0, resetTime = t, limitType = Some Daily\<rparr>,
                    tbl))
          \<and> (or_zero (row_uploads_today row) < daily_limit (USER_LIMITS sub) \<longrightarrow>
               checkUserLimits userId sub e tbl
                 = (\<lparr>allowed = True,
                      remaining = daily_limit (USER_LIMITS sub) - or_zero (row_uploads_today row),
                      resetTime = t, limitType = None\<rparr>, tbl)))
       \<and> (stats_rpc e = NoFault \<and> reset_due (db_now_stats e) (Some row) \<longrightarrow>
            checkUserLimits userId sub e tbl
              = (\<lparr>allowed = True, remaining = daily_limit (USER_LIMITS sub),
                   resetTime = next_midnight (db_now_stats e), limitType = None\<rparr>,
                 tbl(userId \<mapsto> row\<lparr>row_uploads_today := Some 0,
                         row_daily_reset_at := Some (next_midnight (db_now_stats e))\<rparr>)))
       \<and> (stats_rpc e = ErrorResult \<and> stats_select e = NoFault \<longrightarrow>
            (or_zero (row_uploads_today row) \<ge> daily_limit (USER_LIMITS sub) \<longrightarrow>
               checkUserLimits userId sub e tbl
                 = (\<lparr>allowed = False, remaining = 0,
                      resetTime = or_default_reset (row_daily_reset_at row) (now_stats e),
                      limitType = Some Daily\<rparr>, tbl))
          \<and> (or_zero (row_uploads_today row) < daily_limit (USER_LIMITS sub) \<longrightarrow>
               checkUserLimits userId sub e tbl
                 = (\<lparr>allowed = True,
                      remaining = daily_limit (USER_LIMITS sub) - or_zero (row_uploads_today row),
                      resetTime = or_default_reset (row_daily_reset_at row) (now_stats e),
                      limitType = None\<rparr>, tbl)))
       \<and> (stats_rpc e = Rejects \<or> (stats_rpc e = ErrorResult \<and> stats_select e \<noteq> NoFault) \<longrightarrow>
            checkUserLimits userId sub e tbl
              = (\<lparr>allowed = True, remaining = daily_limit (USER_LIMITS sub),
                   resetTime = now_stats e + DAY_MS, limitType = None\<rparr>, tbl))
       \<and> daily_limit (USER_LIMITS FREE) = 5 \<and> daily_limit (USER_LIMITS PRO) = 50"
proof -
  have pos: "0 < daily_limit (USER_LIMITS sub)" by (cases sub) simp_all
  have fresh: "getUserUsageStatsFromDB userId e tbl
      = (\<lparr>uploads_today = or_zero (row_uploads_today row), daily_reset_at = t\<rparr>, tbl)"
    if "stats_rpc e = NoFault" "row_daily_reset_at row = Some t" "db_now_stats e < t"
    using that row
    by (simp add: getUserUsageStatsFromDB_def get_user_usage_stats_def Let_def reset_due_def
        or_zero_def or_default_reset_def split: option.splits)
  have stale: "getUserUsageStatsFromDB userId e tbl
      = (\<lparr>uploads_today = 0, daily_reset_at = next_midnight (db_now_stats e)\<rparr>,
         tbl(userId \<mapsto> row\<lparr>row_uploads_today := Some 0,
                 row_daily_reset_at := Some (next_midnight (db_now_stats e))\<rparr>))"
    if "stats_rpc e = NoFault" "reset_due (db_now_stats e) (Some row)"
    using that row
    by (simp add: getUserUsageStatsFromDB_def get_user_usage_stats_def Let_def
        or_zero_def or_default_reset_def)
  have direct: "getUserUsageStatsFromDB userId e tbl
      = (\<lparr>uploads_today = or_zero (row_uploads_today row),
           daily_reset_at = or_default_reset (row_daily_reset_at row) (now_stats e)\<rparr>, tbl)"
    if "stats_rpc e = ErrorResult" "stats_select e = NoFault"
    using that row by (simp add: getUserUsageStatsFromDB_def)
  have failed: "getUserUsageStatsFromDB userId e tbl
      = (\<lparr>uploads_today = 0, daily_reset_at = now_stats e + DAY_MS\<rparr>, tbl)"
    if "stats_rpc e = Rejects \<or> (stats_rpc e = ErrorResult \<and> stats_select e \<noteq> NoFault)"
    using that
    by (auto simp: getUserUsageStatsFromDB_def default_usage_def split: fault.splits)
  show ?thesis
    using pos fresh stale direct failed
    by (auto simp: checkUserLimits_def checkUserLimits_on_def Let_def)
qed

text \<open>
  Claim C1 as stated fails: a FREE user whose stored \<open>uploads_today\<close> is 5 and a PRO
  user whose stored count is 50 are admitted when the usage read fails.
\<close>

theorem limit_reached_admitted_when_read_fails:
  "ex_table 5 5000 ex_user = Some \<lparr>row_uploads_today = Some 5, row_daily_reset_at = Some 5000\<rparr>
   \<and> fst (checkUserLimits ex_user FREE (ex_db\<lparr>stats_rpc := Rejects\<rparr>) (ex_table 5 5000))
       = \<lparr>allowed = True, remaining = 5, resetTime = 86401000, limitType = None\<rparr>
   \<and> ex_table 50 5000 ex_user = Some \<lparr>row_uploads_today = Some 50, row_daily_reset_at = Some 5000\<rparr>
   \<and> fst (checkUserLimits ex_user PRO (ex_db\<lparr>stats_rpc := ErrorResult, stats_select := ErrorResult\<rparr>)
         (ex_table 50 5000))
       = \<lparr>allowed = True, remaining = 50, resetTime = 86401000, limitType = None\<rparr>"
  by code_simp

text \<open>
  Claim C1, instances: one below the limit and at the limit for both tiers; a row at the
  limit whose reset time has passed; the direct select on that row; a failed read.
\<close>

theorem checkUserLimits_on_stored_row_witness:
  "checkUserLimits ex_user FREE ex_db (ex_table 4 5000)
     = (\<lparr>allowed = True, remaining = 1, resetTime = 5000, limitType = None\<rparr>, ex_table 4 5000)
   \<and> checkUserLimits ex_user FREE ex_db (ex_table 5 5000)
     = (\<lparr>allowed = False, remaining = 0, resetTime = 5000, limitType = Some Daily\<rparr>,
        ex_table 5 5000)
   \<and> checkUserLimits ex_user PRO ex_db (ex_table 49 5000)
     = (\<lparr>allowed = True, remaining = 1, resetTime = 5000, limitType = None\<rparr>, ex_table 49 5000)
   \<and> checkUserLimits ex_user PRO ex_db (ex_table 50 5000)
     = (\<lparr>allowed = False, remaining = 0, resetTime = 5000, limitType = Some Daily\<rparr>,
        ex_table 50 5000)
   \<and> checkUserLimits ex_user FREE ex_db (ex_table 5 500)
     = (\<lparr>allowed = True, remaining = 5, resetTime = 86400000, limitType = None\<rparr>,
        ex_table 0 86400000)
   \<and> checkUserLimits ex_user FREE (ex_db\<lparr>stats_rpc := ErrorResult\<rparr>) (ex_table 5 500)
     = (\<lparr>allowed = False, remaining = 0, resetTime = 500, limitType = Some Daily\<rparr>,
        ex_table 5 500)
   \<and> checkUserLimits ex_user PRO (ex_db\<lparr>stats_rpc := Rejects\<rparr>) (ex_table 50 5000)
     = (\<lparr>allowed = True, remaining = 50, resetTime = 86401000, limitType = None\<rparr>,
        ex_table 50 5000)"
proof -
  have row: "ex_table n r ex_user = Some \<lparr>row_uploads_today = Some n, row_daily_reset_at = Some r\<rparr>"
    for n r by (simp add: ex_table_def)
  have upd: "(ex_table 5 500)(ex_user \<mapsto>
        \<lparr>row_uploads_today = Some 5, row_daily_reset_at = Some 500\<rparr>
          \<lparr>row_uploads_today := Some 0, row_daily_reset_at := Some 86400000\<rparr>)
      = ex_table 0 86400000"
    by (simp add: ex_table_def)
  have nm: "next_midnight 1000 = 86400000" by (simp add: next_midnight_def DAY_MS_def)
  have a: "checkUserLimits ex_user FREE ex_db (ex_table 4 5000)
     = (\<lparr>allowed = True, remaining = 1, resetTime = 5000, limitType = None\<rparr>, ex_table 4 5000)"
    using checkUserLimits_on_stored_row [where tbl = "ex_table 4 5000" and userId = ex_user
        and e = ex_db and t = 5000 and sub = FREE, OF row] by (simp add: ex_db_def or_zero_def)
  have b: "checkUserLimits ex_user FREE ex_db (ex_table 5 5000)
     = (\<lparr>allowed = False, remaining = 0, resetTime = 5000, limitType = Some Daily\<rparr>,
        ex_table 5 5000)"
    using checkUserLimits_on_stored_row [where tbl = "ex_table 5 5000" and userId = ex_user
        and e = ex_db and t = 5000 and sub = FREE, OF row] by (simp add: ex_db_def or_zero_def)
  have c: "checkUserLimits ex_user PRO ex_db (ex_table 49 5000)
     = (\<lparr>allowed = True, remaining = 1, resetTime = 5000, limitType = None\<rparr>, ex_table 49 5000)"
    using checkUserLimits_on_stored_row [where tbl = "ex_table 49 5000" and userId = ex_user
        and e = ex_db and t = 5000 and sub = PRO, OF row] by (simp add: ex_db_def or_zero_def)
  have d: "checkUserLimits ex_user PRO ex_db (ex_table 50 5000)
     = (\<lparr>allowed = False, remaining = 0, resetTime = 5000, limitType = Some Daily\<rparr>,
        ex_table 50 5000)"
    using checkUserLimits_on_stored_row [where tbl = "ex_table 50 5000" and userId = ex_user
        and e = ex_db and t = 5000 and sub = PRO, OF row] by (simp add: ex_db_def or_zero_def)
  have e: "checkUserLimits ex_user FREE ex_db (ex_table 5 500)
     = (\<lparr>allowed = True, remaining = 5, resetTime = 86400000, limitType = None\<rparr>,
        ex_table 0 86400000)"
    using checkUserLimits_on_stored_row [where tbl = "ex_table 5 500" and userId = ex_user
        and e = ex_db and t = 500 and sub = FREE, OF row] upd nm by (simp add: ex_db_def reset_due_def)
  have f: "checkUserLimits ex_user FREE (ex_db\<lparr>stats_rpc := ErrorResult\<rparr>) (ex_table 5 500)
     = (\<lparr>allowed = False, remaining = 0, resetTime = 500, limitType = Some Daily\<rparr>,
        ex_table 5 500)"
    using checkUserLimits_on_stored_row [where tbl = "ex_table 5 500" and userId = ex_user
        and e = "ex_db\<lparr>stats_rpc := ErrorResult\<rparr>" and t = 500 and sub = FREE, OF row]
    by (simp add: ex_db_def or_zero_def or_default_reset_def)
  have g: "checkUserLimits ex_user PRO (ex_db\<lparr>stats_rpc := Rejects\<rparr>) (ex_table 50 5000)
     = (\<lparr>allowed = True, remaining = 50, resetTime = 86401000, limitType = None\<rparr>,
        ex_table 50 5000)"
    using checkUserLimits_on_stored_row [where tbl = "ex_table 50 5000" and userId = ex_user
        and e = "ex_db\<lparr>stats_rpc := Rejects\<rparr>" and t = 5000 and sub = PRO, OF row]
    by (simp add: ex_db_def DAY_MS_def)
  from a b c d e f g show ?thesis by simp
qed

subsection \<open>The retry loop of the generation clients\<close>

lemma attempts_3:
  "attempts bd f 3 1 =
     (case bd 3 1 (f 1) of
        Return v \<Rightarrow> (Inr (Some v), [Fetch 1])
      | Throw e \<Rightarrow> (Inl e, [Fetch 1])
      | Continue d \<Rightarrow>
          (case bd 3 2 (f 2) of
             Return v \<Rightarrow> (Inr (Some v), [Fetch 1, Sleep d, Fetch 2])
           | Throw e \<Rightarrow> (Inl e, [Fetch 1, Sleep d, Fetch 2])
           | Continue d' \<Rightarrow>
               (case bd 3 3 (f 3) of
                  Return v \<Rightarrow> (Inr (Some v), [Fetch 1, Sleep d, Fetch 2, Sleep d', Fetch 3])
                | Throw e \<Rightarrow> (Inl e, [Fetch 1, Sleep d, Fetch 2, Sleep d', Fetch 3])
                | Continue d'' \<Rightarrow>
                    (Inr None, [Fetch 1, Sleep d, Fetch 2, Sleep d', Fetch 3, Sleep d'']))))"
proof -
  have s3: "Suc 2 = 3" and s4: "Suc 3 = 4" by simp_all
  have a4: "attempts bd f 3 4 = (Inr None, [])"
    by (subst attempts.simps) simp
  have a3: "attempts bd f 3 3 =
     (case bd 3 3 (f 3) of
        Return v \<Rightarrow> (Inr (Some v), [Fetch 3])
      | Throw e \<Rightarrow> (Inl e, [Fetch 3])
      | Continue d \<Rightarrow> (case attempts bd f 3 4 of (r, es) \<Rightarrow> (r, Fetch 3 # Sleep d # es)))"
    apply (subst attempts.simps)
    unfolding s4
    by simp
  have a2: "attempts bd f 3 2 =
     (case bd 3 2 (f 2) of
        Return v \<Rightarrow> (Inr (Some v), [Fetch 2])
      | Throw e \<Rightarrow> (Inl e, [Fetch 2])
      | Continue d \<Rightarrow> (case attempts bd f 3 3 of (r, es) \<Rightarrow> (r, Fetch 2 # Sleep d # es)))"
    apply (subst attempts.simps)
    unfolding s3
    by simp
  have a1: "attempts bd f 3 1 =
     (case bd 3 1 (f 1) of
        Return v \<Rightarrow> (Inr (Some v), [Fetch 1])
      | Throw e \<Rightarrow> (Inl e, [Fetch 1])
      | Continue d \<Rightarrow> (case attempts bd f 3 2 of (r, es) \<Rightarrow> (r, Fetch 1 # Sleep d # es)))"
    apply (subst attempts.simps)
    unfolding Suc_1
    by simp
  show ?thesis
    unfolding a1 a2 a3 a4 by (simp split: attempt.splits)
qed

text \<open>
  Claim C3.  The claim asks for exactly one provider call on a 4xx response.  The
  \<open>throw\<close> for a response that is not retried sits inside the \<open>try\<close> block, so
  the \<open>catch\<close> block of the same iteration receives it and, before the last attempt,
  sleeps and lets the loop go on: a provider that always answers 400 with body \<open>bad\<close>
  is called three times, with sleeps of 2000 and 4000 ms, and the error of the third
  response (which carries the provider's body) is the one surfaced.
\<close>

theorem client_retries_after_4xx:
  "callGroqWithText True (always (Response 400 (js ''bad''))) 3
     = (Inl (JsError (Text (js ''Groq API failed: bad''))
               (Some (RawMessage (Text (js ''bad'')))) (Some 400)),
        [Fetch 1, Sleep 2000, Fetch 2, Sleep 4000, Fetch 3])
   \<and> callGeminiWithText (always (Response 400 (js ''bad''))) 3
     = (Inl (JsError (Text (js ''Gemini API failed: bad'')) None None),
        [Fetch 1, Sleep 2000, Fetch 2, Sleep 4000, Fetch 3])
   \<and> fetches (snd (callGroqWithText True (always (Response 400 (js ''bad''))) 3)) = 3
   \<and> fetches (snd (callGeminiWithText (always (Response 400 (js ''bad''))) 3)) = 3"
  by code_simp


lemma groq_attempt_retry:
  "500 \<le> st \<Longrightarrow> k < 3 \<Longrightarrow> groq_attempt 3 k (Response st b) = Continue (2000 * int k)"
  by (simp add: groq_attempt_def groq_try_def res_ok_def)

lemma gemini_attempt_retry:
  "500 \<le> st \<Longrightarrow> k < 3 \<Longrightarrow> gemini_attempt 3 k (Response st b) = Continue (2000 * int k)"
  by (simp add: gemini_attempt_def gemini_try_def res_ok_def)

lemma index_of_key_0: "index_of_key (js ''0'') = Some 0"
  by code_simp

lemma gemini_text_payload:
  assumes "map_of kvs (js ''candidates'') = Some (JArr (JObj ckvs # cs))"
    "map_of ckvs (js ''content'') = Some (JObj pkvs)"
    "map_of pkvs (js ''parts'') = Some (JArr (JObj tkvs # ps))"
    "map_of tkvs (js ''text'') = Some payload" "payload \<noteq> JNull"
  shows "gemini_text (JObj kvs) = payload"
  using assms
  by (simp add: gemini_text_def get_prop_def opt_chain_def nullish_or_def index_of_key_0
      split: json.splits)

lemma groq_content_payload:
  assumes "map_of kvs (js ''choices'') = Some (JArr (JObj ckvs # cs))"
    "map_of ckvs (js ''message'') = Some (JObj mkvs)"
    "map_of mkvs (js ''content'') = Some payload" "payload \<noteq> JNull"
  shows "groq_content (JObj kvs) = payload"
  using assms
  by (simp add: groq_content_def groq_message_content_def get_prop_def opt_chain_def
      nullish_or_def index_of_key_0 split: json.splits)

lemma groq_usage_field:
  "groq_usage (JObj kvs) =
     (case map_of kvs (js ''usage'') of None \<Rightarrow> JObj [] | Some JNull \<Rightarrow> JObj [] | Some u \<Rightarrow> u)"
  by (simp add: groq_usage_def get_prop_def nullish_or_def)

text \<open>
  Claim C7.  With the default of 3 attempts and the delay \<open>2000 * attempt\<close>: when the
  first two responses have a status of 500 or more and the third is successful with a
  JSON envelope, both clients return the payload extracted from the third response
  after sleeping 2000 and 4000 ms.  The payload is the value the envelope holds at
  \<open>candidates[0].content.parts[0].text\<close> (Gemini) or at
  \<open>choices[0].message.content\<close> (Groq, together with the envelope's \<open>usage\<close>).  When the
  third response is 5xx as well, both clients throw the error built from the third
  response, and no call follows the third.
\<close>

theorem retry_three_attempts:
  assumes "f 1 = Response s1 b1" "500 \<le> s1" "f 2 = Response s2 b2" "500 \<le> s2"
    and "f 3 = Response s3 b3"
  shows "(res_ok s3 \<and> JSON_parse b3 = Some data \<and> data \<noteq> JNull \<longrightarrow>
            callGroqWithText True f 3
              = (Inr (Some (groq_content data, groq_usage data)),
                 [Fetch 1, Sleep (2000 * 1), Fetch 2, Sleep (2000 * 2), Fetch 3])
          \<and> callGeminiWithText f 3
              = (Inr (Some (gemini_text data)),
                 [Fetch 1, Sleep (2000 * 1), Fetch 2, Sleep (2000 * 2), Fetch 3]))
       \<and> (res_ok s3 \<and> JSON_parse b3 = Some (JObj kvs)
            \<and> map_of kvs (js ''candidates'') = Some (JArr (JObj ckvs # cs))
            \<and> map_of ckvs (js ''content'') = Some (JObj pkvs)
            \<and> map_of pkvs (js ''parts'') = Some (JArr (JObj tkvs # ps))
            \<and> map_of tkvs (js ''text'') = Some payload \<and> payload \<noteq> JNull \<longrightarrow>
            callGeminiWithText f 3
              = (Inr (Some payload),
                 [Fetch 1, Sleep (2000 * 1), Fetch 2, Sleep (2000 * 2), Fetch 3]))
       \<and> (res_ok s3 \<and> JSON_parse b3 = Some (JObj kvs)
            \<and> map_of kvs (js ''choices'') = Some (JArr (JObj ckvs # cs))
            \<and> map_of ckvs (js ''message'') = Some (JObj mkvs)
            \<and> map_of mkvs (js ''content'') = Some payload \<and> payload \<noteq> JNull \<longrightarrow>
            callGroqWithText True f 3
              = (Inr (Some (payload,
                            (case map_of kvs (js ''usage'') of
                               None \<Rightarrow> JObj []
                             | Some JNull \<Rightarrow> JObj []
                             | Some u \<Rightarrow> u))),
                 [Fetch 1, Sleep (2000 * 1), Fetch 2, Sleep (2000 * 2), Fetch 3]))
       \<and> (500 \<le> s3 \<longrightarrow>
            callGroqWithText True f 3
              = (Inl (if b3 = []
                      then JsError (Text (js ''Groq API failed: '' @ b3))
                             (Some (RawMessage (Text (js ''Groq API failed: '' @ b3))))
                             (Some s3)
                      else JsError (Text (js ''Groq API failed: '' @ b3))
                             (Some (RawMessage (Text b3))) (Some s3)),
                 [Fetch 1, Sleep (2000 * 1), Fetch 2, Sleep (2000 * 2), Fetch 3])
          \<and> callGeminiWithText f 3
              = (Inl (JsError (Text (js ''Gemini API failed: '' @ b3)) None None),
                 [Fetch 1, Sleep (2000 * 1), Fetch 2, Sleep (2000 * 2), Fetch 3]))"
proof -
  have g1: "groq_attempt 3 1 (f 1) = Continue 2000" "groq_attempt 3 2 (f 2) = Continue 4000"
    using assms groq_attempt_retry [of s1 1 b1] groq_attempt_retry [of s2 2 b2] by simp_all
  have m1: "gemini_attempt 3 1 (f 1) = Continue 2000"
    "gemini_attempt 3 2 (f 2) = Continue 4000"
    using assms gemini_attempt_retry [of s1 1 b1] gemini_attempt_retry [of s2 2 b2]
    by simp_all
  have ok_groq: "groq_attempt 3 3 (f 3) = Return (groq_content data, groq_usage data)"
    if "res_ok s3" "JSON_parse b3 = Some data" "data \<noteq> JNull" for data
    using that assms(5) by (simp add: groq_attempt_def groq_try_def)
  have ok_gemini: "gemini_attempt 3 3 (f 3) = Return (gemini_text data)"
    if "res_ok s3" "JSON_parse b3 = Some data" "data \<noteq> JNull" for data
    using that assms(5) by (simp add: gemini_attempt_def gemini_try_def)
  have bad_groq: "groq_attempt 3 3 (f 3)
      = Throw (if b3 = []
               then JsError (Text (js ''Groq API failed: '' @ b3))
                      (Some (RawMessage (Text (js ''Groq API failed: '' @ b3)))) (Some s3)
               else JsError (Text (js ''Groq API failed: '' @ b3))
                      (Some (RawMessage (Text b3))) (Some s3))"
    if "500 \<le> s3"
    using that assms(5)
    by (simp add: groq_attempt_def groq_try_def groq_catch_def res_ok_def truthy_raw_def
        truthy_message_def js_def)
  have bad_gemini: "gemini_attempt 3 3 (f 3)
      = Throw (JsError (Text (js ''Gemini API failed: '' @ b3)) None None)"
    if "500 \<le> s3"
    using that assms(5)
    by (simp add: gemini_attempt_def gemini_try_def gemini_catch_def res_ok_def)
  have A: "callGroqWithText True f 3
      = (Inr (Some (groq_content data, groq_usage data)),
         [Fetch 1, Sleep (2000 * 1), Fetch 2, Sleep (2000 * 2), Fetch 3])"
    if "res_ok s3" "JSON_parse b3 = Some data" "data \<noteq> JNull" for data
    unfolding callGroqWithText_def attempts_3 g1 ok_groq [OF that] by simp
  have B: "callGeminiWithText f 3
      = (Inr (Some (gemini_text data)),
         [Fetch 1, Sleep (2000 * 1), Fetch 2, Sleep (2000 * 2), Fetch 3])"
    if "res_ok s3" "JSON_parse b3 = Some data" "data \<noteq> JNull" for data
    unfolding callGeminiWithText_def attempts_3 m1 ok_gemini [OF that] by simp
  have C: "callGroqWithText True f 3
      = (Inl (if b3 = []
              then JsError (Text (js ''Groq API failed: '' @ b3))
                     (Some (RawMessage (Text (js ''Groq API failed: '' @ b3)))) (Some s3)
              else JsError (Text (js ''Groq API failed: '' @ b3))
                     (Some (RawMessage (Text b3))) (Some s3)),
         [Fetch 1, Sleep (2000 * 1), Fetch 2, Sleep (2000 * 2), Fetch 3])"
    if "500 \<le> s3"
    unfolding callGroqWithText_def attempts_3 g1 bad_groq [OF that] by simp
  have D: "callGeminiWithText f 3
      = (Inl (JsError (Text (js ''Gemini API failed: '' @ b3)) None None),
         [Fetch 1, Sleep (2000 * 1), Fetch 2, Sleep (2000 * 2), Fetch 3])"
    if "500 \<le> s3"
    unfolding callGeminiWithText_def attempts_3 m1 bad_gemini [OF that] by simp
  have E: "callGeminiWithText f 3
      = (Inr (Some payload),
         [Fetch 1, Sleep (2000 * 1), Fetch 2, Sleep (2000 * 2), Fetch 3])"
    if "res_ok s3" "JSON_parse b3 = Some (JObj kvs)"
      "map_of kvs (js ''candidates'') = Some (JArr (JObj ckvs # cs))"
      "map_of ckvs (js ''content'') = Some (JObj pkvs)"
      "map_of pkvs (js ''parts'') = Some (JArr (JObj tkvs # ps))"
      "map_of tkvs (js ''text'') = Some payload" "payload \<noteq> JNull"
    using B [OF that(1,2)] gemini_text_payload [OF that(3-7)] by simp
  have F: "callGroqWithText True f 3
      = (Inr (Some (payload,
                    (case map_of kvs (js ''usage'') of
                       None \<Rightarrow> JObj []
                     | Some JNull \<Rightarrow> JObj []
                     | Some u \<Rightarrow> u))),
         [Fetch 1, Sleep (2000 * 1), Fetch 2, Sleep (2000 * 2), Fetch 3])"
    if "res_ok s3" "JSON_parse b3 = Some (JObj kvs)"
      "map_of kvs (js ''choices'') = Some (JArr (JObj ckvs # cs))"
      "map_of ckvs (js ''message'') = Some (JObj mkvs)"
      "map_of mkvs (js ''content'') = Some payload" "payload \<noteq> JNull"
    using A [OF that(1,2)] groq_content_payload [OF that(3-6)] groq_usage_field [of kvs]
    by simp
  from A B C D E F show ?thesis by blast
qed

text \<open>
  Claim C7, instances: 500, 500, 200 succeeds on the third attempt and returns the text
  of the third response's envelope; an envelope without content gives \<open>[]\<close>; 500 three
  times fails after the third.
\<close>

theorem retry_three_attempts_witness:
  "callGroqWithText True
       (twice_then (Response 500 (js ''down''))
          (Response 200
             (js ''{\"choices\":[{\"message\":{\"content\":'' @ json_quote (js ''[{\"q\":1}]'')
              @ js ''}}],\"usage\":{\"completion_tokens\":7}}''))) 3
     = (Inr (Some (JStr (js ''[{\"q\":1}]''),
                   JObj [(js ''completion_tokens'', JNum 7 0)])),
        [Fetch 1, Sleep 2000, Fetch 2, Sleep 4000, Fetch 3])
   \<and> callGeminiWithText
       (twice_then (Response 500 (js ''down''))
          (Response 200 (gemini_envelope (js ''[{\"q\":1}]'')))) 3
     = (Inr (Some (JStr (js ''[{\"q\":1}]''))),
        [Fetch 1, Sleep 2000, Fetch 2, Sleep 4000, Fetch 3])
   \<and> callGroqWithText True (twice_then (Response 500 (js ''down'')) (Response 200 (js ''{}''))) 3
     = (Inr (Some (JStr (js ''[]''), JObj [])),
        [Fetch 1, Sleep 2000, Fetch 2, Sleep 4000, Fetch 3])
   \<and> callGroqWithText True (always (Response 500 (js ''down''))) 3
     = (Inl (JsError (Text (js ''Groq API failed: down''))
               (Some (RawMessage (Text (js ''down'')))) (Some 500)),
        [Fetch 1, Sleep 2000, Fetch 2, Sleep 4000, Fetch 3])
   \<and> callGeminiWithText (always (Response 500 (js ''down''))) 3
     = (Inl (JsError (Text (js ''Gemini API failed: down'')) None None),
        [Fetch 1, Sleep 2000, Fetch 2, Sleep 4000, Fetch 3])"
proof -
  let ?down = "Response 500 (js ''down'')"
  let ?gq = "js ''{\"choices\":[{\"message\":{\"content\":'' @ json_quote (js ''[{\"q\":1}]'')
              @ js ''}}],\"usage\":{\"completion_tokens\":7}}''"
  let ?pay = "JStr (js ''[{\"q\":1}]'')"
  let ?gm = "gemini_envelope (js ''[{\"q\":1}]'')"
  let ?tk = "[(js ''text'', ?pay)]"
  let ?pk = "[(js ''parts'', JArr [JObj ?tk])]"
  let ?ck = "[(js ''content'', JObj ?pk)]"
  let ?kv = "[(js ''candidates'', JArr [JObj ?ck])]"
  let ?mk = "[(js ''content'', ?pay)]"
  let ?ck' = "[(js ''message'', JObj ?mk)]"
  let ?kv' = "[(js ''choices'', JArr [JObj ?ck']),
               (js ''usage'', JObj [(js ''completion_tokens'', JNum 7 0)])]"
  have p0: "JSON_parse (js ''{}'') = Some (JObj [])" by code_simp
  have c0: "groq_content (JObj []) = JStr (js ''[]'')" "groq_usage (JObj []) = JObj []"
    by code_simp+
  have p1: "JSON_parse ?gq = Some (JObj ?kv')" by code_simp
  have p2: "JSON_parse ?gm = Some (JObj ?kv)" by code_simp
  have m1: "map_of ?kv (js ''candidates'') = Some (JArr (JObj ?ck # []))"
    "map_of ?ck (js ''content'') = Some (JObj ?pk)"
    "map_of ?pk (js ''parts'') = Some (JArr (JObj ?tk # []))"
    "map_of ?tk (js ''text'') = Some ?pay"
    by code_simp+
  have m2: "map_of ?kv' (js ''choices'') = Some (JArr (JObj ?ck' # []))"
    "map_of ?ck' (js ''message'') = Some (JObj ?mk)"
    "map_of ?mk (js ''content'') = Some ?pay"
    "map_of ?kv' (js ''usage'') = Some (JObj [(js ''completion_tokens'', JNum 7 0)])"
    by code_simp+
  have ne: "js ''down'' \<noteq> []" by (simp add: js_def)
  have cat: "js ''Groq API failed: '' @ js ''down'' = js ''Groq API failed: down''"
    "js ''Gemini API failed: '' @ js ''down'' = js ''Gemini API failed: down''"
    by (simp_all add: js_def)
  have ok: "res_ok 200" by (simp add: res_ok_def)
  have f12: "twice_then ?down r 1 = ?down" "twice_then ?down r 2 = ?down"
    "twice_then ?down r 3 = r" "always ?down k = ?down" for r k
    by (simp_all add: twice_then_def always_def)
  note a = retry_three_attempts [where f = "twice_then ?down (Response 200 ?gq)"
      and ?s1.0 = 500 and ?b1.0 = "js ''down''" and ?s2.0 = 500 and ?b2.0 = "js ''down''"
      and ?s3.0 = 200 and ?b3.0 = ?gq and kvs = ?kv' and ckvs = ?ck' and cs = "[]"
      and mkvs = ?mk and payload = ?pay,
      OF f12(1) _ f12(2) _ f12(3), THEN conjunct2, THEN conjunct2, THEN conjunct1]
  note b = retry_three_attempts [where f = "twice_then ?down (Response 200 ?gm)"
      and ?s1.0 = 500 and ?b1.0 = "js ''down''" and ?s2.0 = 500 and ?b2.0 = "js ''down''"
      and ?s3.0 = 200 and ?b3.0 = ?gm and kvs = ?kv and ckvs = ?ck and cs = "[]"
      and pkvs = ?pk and tkvs = ?tk and ps = "[]" and payload = ?pay,
      OF f12(1) _ f12(2) _ f12(3), THEN conjunct2, THEN conjunct1]
  note c = retry_three_attempts [where f = "twice_then ?down (Response 200 (js ''{}''))"
      and ?s1.0 = 500 and ?b1.0 = "js ''down''" and ?s2.0 = 500 and ?b2.0 = "js ''down''"
      and ?s3.0 = 200 and ?b3.0 = "js ''{}''" and data = "JObj []",
      OF f12(1) _ f12(2) _ f12(3), THEN conjunct1]
  note d = retry_three_attempts [where f = "always ?down"
      and ?s1.0 = 500 and ?b1.0 = "js ''down''" and ?s2.0 = 500 and ?b2.0 = "js ''down''"
      and ?s3.0 = 500 and ?b3.0 = "js ''down''",
      OF f12(4) _ f12(4) _ f12(4), THEN conjunct2, THEN conjunct2, THEN conjunct2]
  have A: "callGroqWithText True (twice_then ?down (Response 200 ?gq)) 3
     = (Inr (Some (?pay, JObj [(js ''completion_tokens'', JNum 7 0)])),
        [Fetch 1, Sleep 2000, Fetch 2, Sleep 4000, Fetch 3])"
    using a ok p1 m2 by simp
  have B: "callGeminiWithText (twice_then ?down (Response 200 ?gm)) 3
     = (Inr (Some ?pay), [Fetch 1, Sleep 2000, Fetch 2, Sleep 4000, Fetch 3])"
    using b ok p2 m1 by simp
  have C: "callGroqWithText True (twice_then ?down (Response 200 (js ''{}''))) 3
     = (Inr (Some (JStr (js ''[]''), JObj [])),
        [Fetch 1, Sleep 2000, Fetch 2, Sleep 4000, Fetch 3])"
    using c ok p0 c0 by simp
  have D: "callGroqWithText True (always ?down) 3
     = (Inl (JsError (Text (js ''Groq API failed: down''))
               (Some (RawMessage (Text (js ''down'')))) (Some 500)),
        [Fetch 1, Sleep 2000, Fetch 2, Sleep 4000, Fetch 3])"
    "callGeminiWithText (always ?down) 3
     = (Inl (JsError (Text (js ''Gemini API failed: down'')) None None),
        [Fetch 1, Sleep 2000, Fetch 2, Sleep 4000, Fetch 3])"
    using d ne cat by simp_all
  from A B C D show ?thesis by simp
qed

subsection \<open>The cache\<close>

lemma map_of_cacheMCQs:
  "map_of (cacheMCQs h m t0 c) h = Some \<lparr>cached_mcqs = m, timestamp = t0\<rparr>"
proof -
  let ?v = "\<lparr>cached_mcqs = m, timestamp = t0\<rparr>"
  have u: "map_of (AList.update h ?v c) h = Some ?v"
    by (simp add: update_conv')
  have "map_of (filter (\<lambda>(key, v). \<not> t0 - timestamp v > CACHE_DURATION)
          (AList.update h ?v c)) h = Some ?v"
    by (rule map_of_filter_in [OF u]) (simp add: CACHE_DURATION_def)
  with u show ?thesis by (simp add: cacheMCQs_def Let_def)
qed

text \<open>
  Claim C8.  After \<open>cacheMCQs(h, m)\<close> at time \<open>t0\<close>, a lookup of \<open>h\<close> at a time
  \<open>t1\<close> less than 30 minutes later returns exactly \<open>m\<close> and leaves the cache as it
  is; a lookup 30 minutes later or more returns \<open>null\<close> and deletes the entry.
\<close>

theorem cache_round_trip:
  "(t1 - t0 < CACHE_DURATION \<longrightarrow>
      getCachedMCQs h t1 (cacheMCQs h m t0 c) = (Some m, cacheMCQs h m t0 c))
   \<and> (t1 - t0 \<ge> CACHE_DURATION \<longrightarrow>
      fst (getCachedMCQs h t1 (cacheMCQs h m t0 c)) = None
      \<and> snd (getCachedMCQs h t1 (cacheMCQs h m t0 c)) = AList.delete h (cacheMCQs h m t0 c)
      \<and> map_of (snd (getCachedMCQs h t1 (cacheMCQs h m t0 c))) h = None)"
  by (simp add: getCachedMCQs_def map_of_cacheMCQs delete_conv')

text \<open>
  Claim C8, instances: one millisecond before the 30 minutes are over the stored list
  comes back, at 30 minutes the lookup is empty and so is the cache.
\<close>

theorem cache_round_trip_witness:
  "getCachedMCQs (js ''k'') (1000 + 1799999) (cacheMCQs (js ''k'') [bad_mcq] 1000 [])
     = (Some [bad_mcq], cacheMCQs (js ''k'') [bad_mcq] 1000 [])
   \<and> getCachedMCQs (js ''k'') (1000 + 1800000) (cacheMCQs (js ''k'') [bad_mcq] 1000 [])
     = (None, [])"
proof -
  have c: "CACHE_DURATION = 1800000" by (simp add: CACHE_DURATION_def)
  have d: "AList.delete (js ''k'') (cacheMCQs (js ''k'') [bad_mcq] 1000 []) = []"
    by (simp add: cacheMCQs_def Let_def)
  show ?thesis
    using cache_round_trip [of "1000 + 1799999" 1000 "js ''k''" "[bad_mcq]" "[]"]
      cache_round_trip [of "1000 + 1800000" 1000 "js ''k''" "[bad_mcq]" "[]"] c d
    by (simp add: prod_eq_iff)
qed

subsection \<open>The Gemini handler and the usage table\<close>

lemma get_user_usage_stats_table:
  "snd (get_user_usage_stats u now tbl) =
     (case tbl u of
        None \<Rightarrow> tbl
      | Some row \<Rightarrow>
          if reset_due now (Some row)
          then tbl(u \<mapsto> row\<lparr>row_uploads_today := Some 0,
                               row_daily_reset_at := Some (next_midnight now)\<rparr>)
          else tbl)"
  by (simp add: get_user_usage_stats_def Let_def reset_due_def split: option.splits)

lemma stats_table:
  "snd (getUserUsageStatsFromDB u d tbl) =
     (if stats_rpc d = NoFault then snd (get_user_usage_stats u (db_now_stats d) tbl) else tbl)"
  by (simp add: getUserUsageStatsFromDB_def split: fault.splits option.splits prod.splits list.splits)

lemma stats_after_reset:
  assumes "stats_rpc d = NoFault" "tbl u = Some row" "reset_due (db_now_stats d) (Some row)"
  shows "uploads_today (fst (getUserUsageStatsFromDB u d tbl)) = 0"
  using assms
  by (simp add: getUserUsageStatsFromDB_def get_user_usage_stats_def Let_def or_zero_def)

lemma stats_no_row:
  assumes "tbl u = None"
  shows "uploads_today (fst (getUserUsageStatsFromDB u d tbl)) = 0"
  using assms
  by (simp add: getUserUsageStatsFromDB_def get_user_usage_stats_def Let_def default_usage_def
      reset_due_def split: fault.splits)

lemma zero_uploads_allowed: "uploads_today x = 0 \<Longrightarrow> allowed (checkUserLimits_on sub x)"
  by (cases sub) (simp_all add: checkUserLimits_on_def Let_def)

lemma checkUserLimits_fst:
  "fst (checkUserLimits u sub d tbl) = checkUserLimits_on sub (fst (getUserUsageStatsFromDB u d tbl))"
  and checkUserLimits_snd:
  "snd (checkUserLimits u sub d tbl) = snd (getUserUsageStatsFromDB u d tbl)"
  by (simp_all add: checkUserLimits_def split: prod.splits)

lemma rejected_table_unchanged:
  assumes "\<not> allowed (fst (checkUserLimits u sub d tbl))"
  shows "snd (checkUserLimits u sub d tbl) = tbl"
proof (cases "stats_rpc d = NoFault")
  case False
  then show ?thesis by (simp add: checkUserLimits_snd stats_table)
next
  case True
  show ?thesis
  proof (cases "tbl u")
    case None
    then show ?thesis
      by (simp add: checkUserLimits_snd stats_table get_user_usage_stats_table)
  next
    case (Some row)
    have "\<not> reset_due (db_now_stats d) (Some row)"
    proof
      assume "reset_due (db_now_stats d) (Some row)"
      from stats_after_reset [where d = d and tbl = tbl and u = u and row = row, OF True Some this] assms
      show False
        by (simp add: checkUserLimits_fst zero_uploads_allowed)
    qed
    with Some show ?thesis
      by (simp add: checkUserLimits_snd stats_table get_user_usage_stats_table)
  qed
qed


lemma gemini_generate_throw:
  "fst (gemini_call b e) = Inl err \<Longrightarrow>
   gemini_generate b h u sub ul gu e st = ((InternalError err, st), snd (gemini_call b e))"
  by (cases "gemini_call b e") (simp add: gemini_generate_def)

lemma gemini_generate_malformed:
  "fst (gemini_call b e) = Inr raw \<Longrightarrow> normalize_gemini raw = Inl err \<Longrightarrow>
   gemini_generate b h u sub ul gu e st = ((InternalError err, st), snd (gemini_call b e))"
  by (cases "gemini_call b e") (simp add: gemini_generate_def)

lemma gemini_generate_ok:
  "fst (gemini_call b e) = Inr raw \<Longrightarrow> normalize_gemini raw = Inr m \<Longrightarrow>
   gemini_generate b h u sub ul gu e st =
     ((Ok \<lparr>mcqs = m, count = length m, cached = Some False,
           user_limits = Some (sub, remaining ul - 1, resetTime ul),
           global_usage_info = Some (remaining gu - 1, resetTime gu),
           model_usage = None\<rparr>,
       st\<lparr>global_usage := incrementGlobalUsage (global_usage st),
          user_usage_stats := incrementUserUsage u (db e) (user_usage_stats st),
          mcqCache := cacheMCQs h m (now_store e) (mcqCache st)\<rparr>),
      snd (gemini_call b e))"
  by (cases "gemini_call b e") (simp add: gemini_generate_def)

lemma gemini_generate_not_ok:
  assumes "gemini_generate b h u sub ul gu e st = ((resp, st'), es)" "status resp \<noteq> 200"
  shows "st' = st"
proof (cases "fst (gemini_call b e)")
  case (Inl err)
  from gemini_generate_throw [OF this] assms(1) show ?thesis by simp
next
  case (Inr raw)
  show ?thesis
  proof (cases "normalize_gemini raw")
    case (Inl err)
    from gemini_generate_malformed [OF Inr this] assms(1) show ?thesis by simp
  next
    case (Inr m)
    from gemini_generate_ok [OF \<open>fst (gemini_call b e) = Inr raw\<close> this] assms show ?thesis
      by auto
  qed
qed

lemma gemini_admitted_not_ok:
  assumes "gemini_admitted req u sub ul gu e st = ((resp, st'), es)" "status resp \<noteq> 200"
  shows "user_usage_stats st' = user_usage_stats st \<and> global_usage st' = global_usage st"
proof (cases "req_json req")
  case None
  with assms show ?thesis by (auto simp: gemini_admitted_def)
next
  case (Some b)
  let ?h = "generateFileHash (if truthy_text (text_content b) then text_of (text_content b)
              else text_of (file_data b))"
  show ?thesis
  proof (cases "(\<not> truthy_text (file_data b) \<and> \<not> truthy_text (text_content b))
                \<or> (truthy_text (file_data b) \<and> \<not> truthy_text (mime_type b))")
    case True
    with assms Some show ?thesis by (auto simp: gemini_admitted_def split: if_splits)
  next
    case False
    obtain hit cache' where look: "getCachedMCQs ?h (now_lookup e) (mcqCache st) = (hit, cache')"
      by (cases "getCachedMCQs ?h (now_lookup e) (mcqCache st)")
    show ?thesis
    proof (cases hit)
      case (Some m)
      with assms \<open>req_json req = Some b\<close> False look show ?thesis
        by (auto simp: gemini_admitted_def Let_def)
    next
      case None
      with assms(1) \<open>req_json req = Some b\<close> False look
      have "gemini_generate b ?h u sub ul gu e (st\<lparr>mcqCache := cache'\<rparr>) = ((resp, st'), es)"
        by (auto simp: gemini_admitted_def Let_def)
      from gemini_generate_not_ok [OF this assms(2)] show ?thesis by simp
    qed
  qed
qed


lemma gemini_generate_status:
  assumes "gemini_generate b h u sub ul gu e st = ((resp, st'), es)"
  shows "status resp = 200 \<or> status resp = 500"
proof (cases "fst (gemini_call b e)")
  case (Inl err)
  from gemini_generate_throw [OF this] assms show ?thesis by auto
next
  case (Inr raw)
  show ?thesis
  proof (cases "normalize_gemini raw")
    case (Inl err)
    from gemini_generate_malformed [OF Inr this] assms show ?thesis by auto
  next
    case (Inr m)
    from gemini_generate_ok [OF \<open>fst (gemini_call b e) = Inr raw\<close> this] assms show ?thesis
      by auto
  qed
qed

lemma gemini_admitted_status:
  assumes "gemini_admitted req u sub ul gu e st = ((resp, st'), es)"
  shows "status resp \<noteq> 429"
proof (cases "req_json req")
  case None
  with assms show ?thesis by (auto simp: gemini_admitted_def)
next
  case (Some b)
  let ?h = "generateFileHash (if truthy_text (text_content b) then text_of (text_content b)
              else text_of (file_data b))"
  show ?thesis
  proof (cases "(\<not> truthy_text (file_data b) \<and> \<not> truthy_text (text_content b))
                \<or> (truthy_text (file_data b) \<and> \<not> truthy_text (mime_type b))")
    case True
    with assms Some show ?thesis by (auto simp: gemini_admitted_def split: if_splits)
  next
    case False
    obtain hit cache' where look: "getCachedMCQs ?h (now_lookup e) (mcqCache st) = (hit, cache')"
      by (cases "getCachedMCQs ?h (now_lookup e) (mcqCache st)")
    show ?thesis
    proof (cases hit)
      case (Some m)
      with assms \<open>req_json req = Some b\<close> False look show ?thesis
        by (auto simp: gemini_admitted_def Let_def)
    next
      case None
      with assms(1) \<open>req_json req = Some b\<close> False look
      have "gemini_generate b ?h u sub ul gu e (st\<lparr>mcqCache := cache'\<rparr>) = ((resp, st'), es)"
        by (auto simp: gemini_admitted_def Let_def)
      from gemini_generate_status [OF this] show ?thesis by auto
    qed
  qed
qed

lemma authenticate_user: "authenticate req e = Inr u \<Longrightarrow> auth e = AuthUser u"
  by (auto simp: authenticate_def split: if_splits auth_result.splits)

lemma gemini_authorized_not_ok:
  assumes run: "gemini_authorized req gu e st = ((resp, st'), es)" and bad: "status resp \<noteq> 200"
  shows "global_usage st' = global_usage st
       \<and> (user_usage_stats st' = user_usage_stats st
          \<or> (\<exists>u. authenticate req e = Inr u
                \<and> user_usage_stats st' = snd (getUserUsageStatsFromDB u (db e) (user_usage_stats st))))
       \<and> (status resp = 429 \<longrightarrow> user_usage_stats st' = user_usage_stats st)"
proof (cases "authenticate req e")
  case (Inl r)
  with run have "resp = r" "st' = st" by (auto simp: gemini_authorized_def)
  moreover from Inl have "status r \<noteq> 429"
    by (auto simp: authenticate_def split: if_splits auth_result.splits)
  ultimately show ?thesis by simp
next
  case (Inr u)
  let ?sub = "getUserSubscription (subscription_query e)"
  let ?chk = "checkUserLimits u ?sub (db e) (user_usage_stats st)"
  obtain ul tbl' where chk: "?chk = (ul, tbl')" by (cases ?chk)
  show ?thesis
  proof (cases "allowed ul")
    case False
    with chk rejected_table_unchanged [of u ?sub "db e" "user_usage_stats st"]
    have "tbl' = user_usage_stats st" by simp
    with run Inr chk False show ?thesis by (auto simp: gemini_authorized_def Let_def)
  next
    case True
    with run Inr chk
    have adm: "gemini_admitted req u ?sub ul gu e (st\<lparr>user_usage_stats := tbl'\<rparr>)
                = ((resp, st'), es)"
      by (simp add: gemini_authorized_def Let_def)
    from gemini_admitted_not_ok [OF adm bad]
    have keep: "user_usage_stats st' = tbl'" "global_usage st' = global_usage st" by simp_all
    have "tbl' = snd (getUserUsageStatsFromDB u (db e) (user_usage_stats st))"
      using chk checkUserLimits_snd [of u ?sub "db e" "user_usage_stats st"] by simp
    moreover have "status resp \<noteq> 429"
      using gemini_admitted_status [OF adm] .
    ultimately show ?thesis using keep Inr by auto
  qed
qed

lemma reset_due_later: "reset_due t r \<Longrightarrow> t \<le> now \<Longrightarrow> reset_due now r"
  by (auto simp: reset_due_def split: option.splits)

lemma uploads_today_read_row:
  "uploads_today_read u now tbl =
     (case tbl u of
        None \<Rightarrow> 0
      | Some row \<Rightarrow> if reset_due now (Some row) then 0 else or_zero (row_uploads_today row))"
  by (simp add: uploads_today_read_def get_user_usage_stats_def Let_def or_zero_def
      split: option.splits)

lemma lazy_reset_not_observed:
  assumes row: "tbl u = Some row" and due: "reset_due t (Some row)" and later: "t \<le> now"
  shows "uploads_today_read v now
           (tbl(u \<mapsto> row\<lparr>row_uploads_today := Some 0,
                              row_daily_reset_at := Some (next_midnight t)\<rparr>))
         = uploads_today_read v now tbl"
proof (cases "v = u")
  case False
  then show ?thesis by (simp add: uploads_today_read_row)
next
  case True
  from reset_due_later [OF due later] row True show ?thesis
    by (simp add: uploads_today_read_row or_zero_def)
qed

text \<open>
  Claim C2.  In the Gemini handler the usage commit follows a successful normalization:
  when the provider call throws, or no array can be extracted from its output, the
  generation step answers with the error and leaves the whole state as it found it.
  A request that is not answered with 200 leaves \<open>uploads_today\<close> unchanged: for every
  user and at every time from the request's usage read on, the store reports the same
  \<open>uploads_today\<close> after the request as before.  The table itself is unchanged, or
  differs only by the lazy reset that the usage read \<open>get_user_usage_stats\<close> applies to
  the caller's row when its reset time has passed (the stale count replaced by the 0 it
  stands for, the reset time by the next midnight).  A request rejected with 429 leaves
  the table unchanged.
\<close>

theorem usage_not_advanced_on_failure:
  assumes run: "serve_gemini req e st = ((resp, st'), es)"
  shows "(status resp = 429 \<longrightarrow> user_usage_stats st' = user_usage_stats st)
       \<and> (status resp \<noteq> 200 \<longrightarrow>
            (user_usage_stats st' = user_usage_stats st
             \<or> (\<exists>u row. auth e = AuthUser u \<and> user_usage_stats st u = Some row
                   \<and> reset_due (db_now_stats (db e)) (Some row)
                   \<and> user_usage_stats st' =
                       (user_usage_stats st)(u \<mapsto>
                          row\<lparr>row_uploads_today := Some 0,
                              row_daily_reset_at :=
                                Some (next_midnight (db_now_stats (db e)))\<rparr>)))
            \<and> (\<forall>v now. db_now_stats (db e) \<le> now \<longrightarrow>
                  uploads_today_read v now (user_usage_stats st')
                    = uploads_today_read v now (user_usage_stats st)))
       \<and> (\<forall>b h u sub ul gu st0 err.
            (fst (gemini_call b e) = Inl err
             \<or> (\<exists>raw. fst (gemini_call b e) = Inr raw \<and> normalize_gemini raw = Inl err))
            \<longrightarrow> gemini_generate b h u sub ul gu e st0
                  = ((InternalError err, st0), snd (gemini_call b e)))"
proof -
  have third: "\<forall>b h u sub ul gu st0 err.
            (fst (gemini_call b e) = Inl err
             \<or> (\<exists>raw. fst (gemini_call b e) = Inr raw \<and> normalize_gemini raw = Inl err))
            \<longrightarrow> gemini_generate b h u sub ul gu e st0
                  = ((InternalError err, st0), snd (gemini_call b e))"
    using gemini_generate_throw gemini_generate_malformed by blast
  have frame: "(status resp = 429 \<longrightarrow> user_usage_stats st' = user_usage_stats st)
       \<and> (status resp \<noteq> 200 \<longrightarrow>
            user_usage_stats st' = user_usage_stats st
            \<or> (\<exists>u. authenticate req e = Inr u
                  \<and> user_usage_stats st' =
                      snd (getUserUsageStatsFromDB u (db e) (user_usage_stats st))))"
  proof (cases "req_method req = js ''POST''")
    case False
    with run show ?thesis by (auto simp: serve_gemini_def)
  next
    case True
    obtain gu g' where g: "checkGlobalUsage (now_global e) (global_usage st) = (gu, g')"
      by (cases "checkGlobalUsage (now_global e) (global_usage st)")
    show ?thesis
    proof (cases "allowed gu")
      case False
      with run True g show ?thesis by (auto simp: serve_gemini_def)
    next
      case allowed: True
      with run True g
      have "gemini_authorized req gu e (st\<lparr>global_usage := g'\<rparr>) = ((resp, st'), es)"
        by (simp add: serve_gemini_def)
      from gemini_authorized_not_ok [OF this] show ?thesis by auto
    qed
  qed
  have reset: "tbl' = user_usage_stats st
       \<or> (\<exists>row. user_usage_stats st u = Some row
             \<and> reset_due (db_now_stats (db e)) (Some row)
             \<and> tbl' = (user_usage_stats st)(u \<mapsto>
                         row\<lparr>row_uploads_today := Some 0,
                             row_daily_reset_at :=
                               Some (next_midnight (db_now_stats (db e)))\<rparr>))"
    if "tbl' = snd (getUserUsageStatsFromDB u (db e) (user_usage_stats st))" for u tbl'
    using that
    by (auto simp: stats_table get_user_usage_stats_table split: option.splits if_splits)
  have second: "user_usage_stats st' = user_usage_stats st
            \<or> (\<exists>u row. auth e = AuthUser u \<and> user_usage_stats st u = Some row
                  \<and> reset_due (db_now_stats (db e)) (Some row)
                  \<and> user_usage_stats st' =
                      (user_usage_stats st)(u \<mapsto>
                         row\<lparr>row_uploads_today := Some 0,
                             row_daily_reset_at :=
                               Some (next_midnight (db_now_stats (db e)))\<rparr>))"
    if bad: "status resp \<noteq> 200"
  proof (cases "user_usage_stats st' = user_usage_stats st")
    case True
    then show ?thesis by simp
  next
    case False
    with frame bad obtain u where u: "authenticate req e = Inr u"
      and t: "user_usage_stats st' = snd (getUserUsageStatsFromDB u (db e) (user_usage_stats st))"
      by blast
    from reset [OF t] False obtain row where "user_usage_stats st u = Some row"
      "reset_due (db_now_stats (db e)) (Some row)"
      "user_usage_stats st' = (user_usage_stats st)(u \<mapsto>
                         row\<lparr>row_uploads_today := Some 0,
                             row_daily_reset_at :=
                               Some (next_midnight (db_now_stats (db e)))\<rparr>)"
      by blast
    with authenticate_user [OF u] show ?thesis by blast
  qed
  have read: "uploads_today_read v now (user_usage_stats st')
                = uploads_today_read v now (user_usage_stats st)"
    if bad: "status resp \<noteq> 200" and later: "db_now_stats (db e) \<le> now" for v now
  proof -
    from second [OF bad] show ?thesis
    proof
      assume "user_usage_stats st' = user_usage_stats st"
      then show ?thesis by simp
    next
      assume "\<exists>u row. auth e = AuthUser u \<and> user_usage_stats st u = Some row
                  \<and> reset_due (db_now_stats (db e)) (Some row)
                  \<and> user_usage_stats st' =
                      (user_usage_stats st)(u \<mapsto>
                         row\<lparr>row_uploads_today := Some 0,
                             row_daily_reset_at :=
                               Some (next_midnight (db_now_stats (db e)))\<rparr>)"
      then obtain u row where row: "user_usage_stats st u = Some row"
        and due: "reset_due (db_now_stats (db e)) (Some row)"
        and eq: "user_usage_stats st' =
                      (user_usage_stats st)(u \<mapsto>
                         row\<lparr>row_uploads_today := Some 0,
                             row_daily_reset_at :=
                               Some (next_midnight (db_now_stats (db e)))\<rparr>)"
        by blast
      from lazy_reset_not_observed
          [where tbl = "user_usage_stats st" and u = u and v = v, OF row due later] eq
      show ?thesis by simp
    qed
  qed
  from frame second read third show ?thesis by blast
qed

text \<open>
  Claim C2, instances, the provider answering 500 to every call.  A FREE user with 5
  uploads is rejected with 429 and the table is unchanged.  A user with 3 uploads and a
  reset time in the future gets a 500 and the table is unchanged.  A user with 3 uploads
  and a reset time in the past gets a 500; the row is lazily reset, and the store reports
  0 uploads for it before and after.
\<close>

theorem usage_not_advanced_on_failure_witness:
  "status (fst (fst (serve_gemini ex_request (ex_env (always (Response 500 (js ''down''))))
              (ex_state 7 [] 5 5000)))) = 429
   \<and> user_usage_stats
        (snd (fst (serve_gemini ex_request (ex_env (always (Response 500 (js ''down''))))
                     (ex_state 7 [] 5 5000))))
       = user_usage_stats (ex_state 7 [] 5 5000)
   \<and> status (fst (fst (serve_gemini ex_request (ex_env (always (Response 500 (js ''down''))))
              (ex_state 7 [] 3 5000)))) = 500
   \<and> user_usage_stats
        (snd (fst (serve_gemini ex_request (ex_env (always (Response 500 (js ''down''))))
                     (ex_state 7 [] 3 5000))))
       = user_usage_stats (ex_state 7 [] 3 5000)
   \<and> status (fst (fst (serve_gemini ex_request (ex_env (always (Response 500 (js ''down''))))
              (ex_state 7 [] 3 500)))) = 500
   \<and> user_usage_stats
        (snd (fst (serve_gemini ex_request (ex_env (always (Response 500 (js ''down''))))
                     (ex_state 7 [] 3 500))))
       = (user_usage_stats (ex_state 7 [] 3 500))(ex_user \<mapsto>
            \<lparr>row_uploads_today = Some 0, row_daily_reset_at = Some 86400000\<rparr>)
   \<and> uploads_today_read ex_user 1000 (user_usage_stats (ex_state 7 [] 3 500)) = 0
   \<and> uploads_today_read ex_user 1000
        (user_usage_stats
           (snd (fst (serve_gemini ex_request (ex_env (always (Response 500 (js ''down''))))
                        (ex_state 7 [] 3 500))))) = 0"
proof -
  let ?e = "ex_env (always (Response 500 (js ''down'')))"
  let ?A = "serve_gemini ex_request ?e (ex_state 7 [] 5 5000)"
  let ?B = "serve_gemini ex_request ?e (ex_state 7 [] 3 500)"
  let ?C = "serve_gemini ex_request ?e (ex_state 7 [] 3 5000)"
  have sa: "status (fst (fst ?A)) = 429" by code_simp
  have sb: "status (fst (fst ?B)) = 500" by code_simp
  have sc: "status (fst (fst ?C)) = 500" by code_simp
  note A = usage_not_advanced_on_failure
      [of ex_request ?e "ex_state 7 [] 5 5000" "fst (fst ?A)" "snd (fst ?A)" "snd ?A"]
  note B = usage_not_advanced_on_failure
      [of ex_request ?e "ex_state 7 [] 3 500" "fst (fst ?B)" "snd (fst ?B)" "snd ?B"]
  note C = usage_not_advanced_on_failure
      [of ex_request ?e "ex_state 7 [] 3 5000" "fst (fst ?C)" "snd (fst ?C)" "snd ?C"]
  have a: "user_usage_stats (snd (fst ?A)) = user_usage_stats (ex_state 7 [] 5 5000)"
    using A sa by simp
  have au: "auth ?e = AuthUser ex_user" by (simp add: ex_env_def)
  have now: "db_now_stats (db ?e) = 1000" by (simp add: ex_env_def ex_db_def)
  have row: "user_usage_stats (ex_state 7 [] 3 500) ex_user
      = Some \<lparr>row_uploads_today = Some 3, row_daily_reset_at = Some 500\<rparr>"
    by (simp add: ex_state_def ex_table_def)
  have row': "user_usage_stats (ex_state 7 [] 3 5000) ex_user
      = Some \<lparr>row_uploads_today = Some 3, row_daily_reset_at = Some 5000\<rparr>"
    by (simp add: ex_state_def ex_table_def)
  have nm: "next_midnight 1000 = 86400000"
    by (simp add: next_midnight_def DAY_MS_def)
  have changed: "user_usage_stats (snd (fst ?B)) ex_user
      \<noteq> user_usage_stats (ex_state 7 [] 3 500) ex_user"
    by code_simp
  have fresh: "\<not> reset_due 1000 (Some \<lparr>row_uploads_today = Some 3,
                                           row_daily_reset_at = Some 5000\<rparr>)"
    by (simp add: reset_due_def)
  have b: "user_usage_stats (snd (fst ?B)) =
      (user_usage_stats (ex_state 7 [] 3 500))(ex_user \<mapsto>
         \<lparr>row_uploads_today = Some 0, row_daily_reset_at = Some 86400000\<rparr>)"
    using B sb changed au row nm now by auto
  have c: "user_usage_stats (snd (fst ?C)) = user_usage_stats (ex_state 7 [] 3 5000)"
    using C sc au row' fresh now by auto
  have before: "uploads_today_read ex_user 1000 (user_usage_stats (ex_state 7 [] 3 500)) = 0"
    by (simp add: uploads_today_read_row row reset_due_def)
  have "uploads_today_read ex_user 1000 (user_usage_stats (snd (fst ?B)))
      = uploads_today_read ex_user 1000 (user_usage_stats (ex_state 7 [] 3 500))"
    using B sb now by simp
  with before have after: "uploads_today_read ex_user 1000 (user_usage_stats (snd (fst ?B))) = 0"
    by simp
  from sa a sc c sb b before after show ?thesis by simp
qed

subsection \<open>Order of the global check and authentication\<close>

text \<open>
  Claim C5, as amended.  The Gemini handler evaluates the global capacity check before
  it looks at the token.  When the check rejects, a POST request is answered 503
  whatever its \<open>Authorization\<close> header; when it admits, a request that fails
  authentication gets the response of the authentication step, which is 401 for a
  missing header, a header without the \<open>Bearer\<close> prefix, or a token the
  authentication service refuses.
\<close>

theorem global_check_precedes_auth:
  assumes post: "req_method req = js ''POST''"
  shows "(\<not> allowed (fst (checkGlobalUsage (now_global e) (global_usage st))) \<longrightarrow>
            fst (fst (serve_gemini req e st))
              = ServiceUnavailable
                  (resetTime (fst (checkGlobalUsage (now_global e) (global_usage st)))))
       \<and> (allowed (fst (checkGlobalUsage (now_global e) (global_usage st))) \<longrightarrow>
            (\<forall>r. authenticate req e = Inl r \<longrightarrow> fst (fst (serve_gemini req e st)) = r))
       \<and> (authorization req = None \<or> auth e = AuthError
            \<or> \<not> startsWith (text_of (authorization req)) (js ''Bearer '') \<longrightarrow>
            (\<exists>m. authenticate req e = Inl (Unauthorized m)))"
proof -
  obtain gu g' where g: "checkGlobalUsage (now_global e) (global_usage st) = (gu, g')"
    by (cases "checkGlobalUsage (now_global e) (global_usage st)")
  have one: "fst (fst (serve_gemini req e st)) = ServiceUnavailable (resetTime gu)"
    if "\<not> allowed gu"
    using that post g by (simp add: serve_gemini_def)
  have two: "fst (fst (serve_gemini req e st)) = r"
    if "allowed gu" "authenticate req e = Inl r" for r
    using that post g by (simp add: serve_gemini_def gemini_authorized_def)
  have three: "\<exists>m. authenticate req e = Inl (Unauthorized m)"
    if "authorization req = None \<or> auth e = AuthError
        \<or> \<not> startsWith (text_of (authorization req)) (js ''Bearer '')"
    using that by (auto simp: authenticate_def truthy_text_def)
  from one two three g show ?thesis by simp
qed

text \<open>
  Claim C5 as stated fails: with the global counter at its ceiling a request without
  \<open>Authorization\<close> header is answered 503, not 401; one below the ceiling it is 401.
\<close>

theorem unauthenticated_request_gets_503:
  "authorization ex_request_no_token = None
   \<and> status (fst (fst (serve_gemini ex_request_no_token (ex_env (always NetworkFailure))
                (ex_state 500000 [] 0 5000)))) = 503
   \<and> status (fst (fst (serve_gemini ex_request_no_token (ex_env (always NetworkFailure))
                (ex_state 499999 [] 0 5000)))) = 401"
  by code_simp

text \<open>Claim C5, instances: the two requests above.\<close>

theorem global_check_precedes_auth_witness:
  "fst (fst (serve_gemini ex_request_no_token (ex_env (always NetworkFailure))
               (ex_state 500000 [] 0 5000))) = ServiceUnavailable 5000
   \<and> fst (fst (serve_gemini ex_request_no_token (ex_env (always NetworkFailure))
               (ex_state 499999 [] 0 5000)))
       = Unauthorized (js ''Unauthorized: Missing or invalid token'')"
proof -
  let ?e = "ex_env (always NetworkFailure)"
  have post: "req_method ex_request_no_token = js ''POST''"
    by (simp add: ex_request_no_token_def)
  have full: "\<not> allowed (fst (checkGlobalUsage (now_global ?e)
                  (global_usage (ex_state 500000 [] 0 5000))))"
    by code_simp
  have rt: "resetTime (fst (checkGlobalUsage (now_global ?e)
                  (global_usage (ex_state 500000 [] 0 5000)))) = 5000"
    by code_simp
  have room: "allowed (fst (checkGlobalUsage (now_global ?e)
                  (global_usage (ex_state 499999 [] 0 5000))))"
    by code_simp
  have au: "authenticate ex_request_no_token ?e
      = Inl (Unauthorized (js ''Unauthorized: Missing or invalid token''))"
    by code_simp
  from global_check_precedes_auth [OF post, of ?e "ex_state 500000 [] 0 5000"] full rt
    global_check_precedes_auth [OF post, of ?e "ex_state 499999 [] 0 5000"] room au
  show ?thesis by simp
qed

subsection \<open>Cache hits\<close>

lemma checkGlobalUsage_count:
  "globalUsageCount (snd (checkGlobalUsage now g)) =
     (if now > globalUsageResetTime g then 0 else globalUsageCount g)"
  by (simp add: checkGlobalUsage_def Let_def)

lemma stats_row_effect:
  "snd (getUserUsageStatsFromDB u d tbl) v = tbl v
   \<or> map_option row_uploads_today (snd (getUserUsageStatsFromDB u d tbl) v) = Some (Some 0)"
  by (auto simp: stats_table get_user_usage_stats_table split: option.splits)

text \<open>
  Claim C6.  A POST request that passes the global check, authentication and the
  per-user check, carries content, and whose content hash has a cache entry younger
  than 30 minutes is answered with \<open>ok\<close>, \<open>cached: true\<close> and the cached list.  No
  provider call is made.  The global counter is what the global check left (its value,
  or 0 after the window's lazy reset), the usage table what the usage read left (each
  row as before, or lazily reset to 0): neither increment has run.  The cache is
  unchanged.
\<close>

theorem cache_hit_no_commit:
  assumes post: "req_method req = js ''POST''"
    and glob: "allowed (fst (checkGlobalUsage (now_global e) (global_usage st)))"
    and au: "authenticate req e = Inr u"
    and lim: "allowed (fst (checkUserLimits u (getUserSubscription (subscription_query e))
                (db e) (user_usage_stats st)))"
    and bd: "req_json req = Some b"
    and given: "truthy_text (file_data b) \<or> truthy_text (text_content b)"
    and mime: "truthy_text (file_data b) \<longrightarrow> truthy_text (mime_type b)"
    and hit: "map_of (mcqCache st)
                (generateFileHash (if truthy_text (text_content b) then text_of (text_content b)
                                   else text_of (file_data b))) = Some entry"
    and fresh: "now_lookup e - timestamp entry < CACHE_DURATION"
  shows "fst (fst (serve_gemini req e st))
           = Ok \<lparr>mcqs = cached_mcqs entry, count = length (cached_mcqs entry),
                 cached = Some True,
                 user_limits =
                   Some (getUserSubscription (subscription_query e),
                         remaining (fst (checkUserLimits u
                            (getUserSubscription (subscription_query e)) (db e)
                            (user_usage_stats st))),
                         resetTime (fst (checkUserLimits u
                            (getUserSubscription (subscription_query e)) (db e)
                            (user_usage_stats st)))),
                 global_usage_info =
                   Some (remaining (fst (checkGlobalUsage (now_global e) (global_usage st))),
                         resetTime (fst (checkGlobalUsage (now_global e) (global_usage st)))),
                 model_usage = None\<rparr>
       \<and> snd (serve_gemini req e st) = []
       \<and> global_usage (snd (fst (serve_gemini req e st)))
           = snd (checkGlobalUsage (now_global e) (global_usage st))
       \<and> globalUsageCount (global_usage (snd (fst (serve_gemini req e st))))
           = (if now_global e > globalUsageResetTime (global_usage st) then 0
              else globalUsageCount (global_usage st))
       \<and> user_usage_stats (snd (fst (serve_gemini req e st)))
           = snd (getUserUsageStatsFromDB u (db e) (user_usage_stats st))
       \<and> (\<forall>v. user_usage_stats (snd (fst (serve_gemini req e st))) v = user_usage_stats st v
              \<or> map_option row_uploads_today
                   (user_usage_stats (snd (fst (serve_gemini req e st))) v) = Some (Some 0))
       \<and> mcqCache (snd (fst (serve_gemini req e st))) = mcqCache st"
proof -
  let ?sub = "getUserSubscription (subscription_query e)"
  let ?h = "generateFileHash (if truthy_text (text_content b) then text_of (text_content b)
              else text_of (file_data b))"
  obtain gu g' where g: "checkGlobalUsage (now_global e) (global_usage st) = (gu, g')"
    by (cases "checkGlobalUsage (now_global e) (global_usage st)")
  obtain ul tbl' where c: "checkUserLimits u ?sub (db e) (user_usage_stats st) = (ul, tbl')"
    by (cases "checkUserLimits u ?sub (db e) (user_usage_stats st)")
  have tbl': "tbl' = snd (getUserUsageStatsFromDB u (db e) (user_usage_stats st))"
    using c checkUserLimits_snd [of u ?sub "db e" "user_usage_stats st"] by simp
  have look: "getCachedMCQs ?h (now_lookup e) (mcqCache st)
      = (Some (cached_mcqs entry), mcqCache st)"
    using hit fresh by (simp add: getCachedMCQs_def)
  have adm: "gemini_admitted req u ?sub ul gu e (st\<lparr>global_usage := g', user_usage_stats := tbl'\<rparr>)
      = ((Ok \<lparr>mcqs = cached_mcqs entry, count = length (cached_mcqs entry),
               cached = Some True, user_limits = Some (?sub, remaining ul, resetTime ul),
               global_usage_info = Some (remaining gu, resetTime gu), model_usage = None\<rparr>,
          st\<lparr>global_usage := g', user_usage_stats := tbl'\<rparr>), [])"
    using bd given mime look by (auto simp: gemini_admitted_def Let_def)
  have run: "serve_gemini req e st
      = ((Ok \<lparr>mcqs = cached_mcqs entry, count = length (cached_mcqs entry),
               cached = Some True, user_limits = Some (?sub, remaining ul, resetTime ul),
               global_usage_info = Some (remaining gu, resetTime gu), model_usage = None\<rparr>,
          st\<lparr>global_usage := g', user_usage_stats := tbl'\<rparr>), [])"
    using post glob g au lim c adm
    by (simp add: serve_gemini_def gemini_authorized_def Let_def)
  have cnt: "globalUsageCount g' = (if now_global e > globalUsageResetTime (global_usage st)
              then 0 else globalUsageCount (global_usage st))"
    using g checkGlobalUsage_count [of "now_global e" "global_usage st"] by simp
  show ?thesis
    using run g c tbl' cnt stats_row_effect [of u "db e" "user_usage_stats st"] by simp
qed

text \<open>
  Claim C6, instance: a cached list for the example request; the provider would fail
  if it were called.
\<close>

theorem cache_hit_no_commit_witness:
  "fst (fst (serve_gemini ex_request (ex_env (always NetworkFailure)) (ex_state 7 ex_cache 3 5000)))
     = Ok \<lparr>mcqs = [bad_mcq], count = 1, cached = Some True,
           user_limits = Some (FREE, 2, 5000), global_usage_info = Some (499993, 5000),
           model_usage = None\<rparr>
   \<and> snd (serve_gemini ex_request (ex_env (always NetworkFailure)) (ex_state 7 ex_cache 3 5000))
     = []
   \<and> globalUsageCount (global_usage (snd (fst (serve_gemini ex_request
        (ex_env (always NetworkFailure)) (ex_state 7 ex_cache 3 5000))))) = 7
   \<and> mcqCache (snd (fst (serve_gemini ex_request (ex_env (always NetworkFailure))
        (ex_state 7 ex_cache 3 5000)))) = ex_cache"
proof -
  let ?e = "ex_env (always NetworkFailure)"
  let ?st = "ex_state 7 ex_cache 3 5000"
  let ?entry = "\<lparr>cached_mcqs = [bad_mcq], timestamp = 1000\<rparr>"
  have post: "req_method ex_request = js ''POST''" by (simp add: ex_request_def)
  have glob: "allowed (fst (checkGlobalUsage (now_global ?e) (global_usage ?st)))"
    by code_simp
  have au: "authenticate ex_request ?e = Inr ex_user" by code_simp
  have lim: "allowed (fst (checkUserLimits ex_user (getUserSubscription (subscription_query ?e))
                (db ?e) (user_usage_stats ?st)))"
    by code_simp
  have bd: "req_json ex_request = Some ex_body" by (simp add: ex_request_def)
  have given: "truthy_text (file_data ex_body) \<or> truthy_text (text_content ex_body)"
    by code_simp
  have mime: "truthy_text (file_data ex_body) \<longrightarrow> truthy_text (mime_type ex_body)"
    by code_simp
  have hit: "map_of (mcqCache ?st)
                (generateFileHash (if truthy_text (text_content ex_body)
                                   then text_of (text_content ex_body)
                                   else text_of (file_data ex_body))) = Some ?entry"
    by code_simp
  have fresh: "now_lookup ?e - timestamp ?entry < CACHE_DURATION" by code_simp
  have vals: "getUserSubscription (subscription_query ?e) = FREE"
    "remaining (fst (checkUserLimits ex_user FREE (db ?e) (user_usage_stats ?st))) = 2"
    "resetTime (fst (checkUserLimits ex_user FREE (db ?e) (user_usage_stats ?st))) = 5000"
    "remaining (fst (checkGlobalUsage (now_global ?e) (global_usage ?st))) = 499993"
    "resetTime (fst (checkGlobalUsage (now_global ?e) (global_usage ?st))) = 5000"
    "globalUsageResetTime (global_usage ?st) = 5000" "now_global ?e = 900"
    "globalUsageCount (global_usage ?st) = 7" "mcqCache ?st = ex_cache"
    by code_simp+
  note hit_thm = cache_hit_no_commit [OF post glob au lim bd given mime hit fresh]
  have r: "fst (fst (serve_gemini ex_request ?e ?st))
     = Ok \<lparr>mcqs = [bad_mcq], count = 1, cached = Some True,
           user_limits = Some (FREE, 2, 5000), global_usage_info = Some (499993, 5000),
           model_usage = None\<rparr>"
    using hit_thm [THEN conjunct1] vals by simp
  have es: "snd (serve_gemini ex_request ?e ?st) = []"
    using hit_thm [THEN conjunct2, THEN conjunct1] .
  have gc: "globalUsageCount (global_usage (snd (fst (serve_gemini ex_request ?e ?st)))) = 7"
    using hit_thm [THEN conjunct2, THEN conjunct2, THEN conjunct2, THEN conjunct1] vals
    by simp
  have mc: "mcqCache (snd (fst (serve_gemini ex_request ?e ?st))) = ex_cache"
    using hit_thm vals by simp
  from r es gc mc show ?thesis by simp
qed

subsection \<open>What the normalizers let through\<close>

lemma normalize_gemini_array:
  "JSON_parse t = Some (JArr xs) \<Longrightarrow> normalize_gemini (Some (JStr t)) = Inr xs"
  by (simp add: normalize_gemini_def gemini_extract_def ToString_opt_def)

lemma normalize_groq_array:
  "JSON_parse t = Some (JArr xs) \<Longrightarrow> normalize_groq (JStr t) = Inr xs"
  by (simp add: normalize_groq_def groq_extract_def groq_try_parse_def)






lemma first_array_key_all_empty:
  assumes "\<forall>k\<in>set ks. \<forall>ys. map_of parsed k = Some (JArr ys) \<longrightarrow> ys = []"
  shows "first_array_key ks parsed = []"
  using assms
  by (induction ks) (auto split: option.splits json.splits)




lemma first_array_value_all_empty:
  assumes "\<forall>v\<in>set vs. \<forall>ys. v = JArr ys \<longrightarrow> ys = []"
  shows "first_array_value vs = None \<or> first_array_value vs = Some []"
  using assms
  by (induction vs) (auto split: json.splits)

lemma Object_values_subset: "set (Object_values parsed) \<subseteq> snd ` set parsed"
  by (auto simp: Object_values_def)

lemma groq_try_parse_array:
  "JSON_parse (ToString raw) = Some (JArr xs) \<Longrightarrow> groq_try_parse raw = Some xs"
  by (simp add: groq_try_parse_def)



lemma groq_try_parse_only_empty:
  assumes "JSON_parse (ToString raw) = Some (JObj parsed)"
    and "\<forall>v\<in>snd ` set parsed. \<forall>ys. v = JArr ys \<longrightarrow> ys = []"
  shows "groq_try_parse raw = None"
proof -
  have "\<forall>k\<in>set possibleKeys. \<forall>ys. map_of parsed k = Some (JArr ys) \<longrightarrow> ys = []"
  proof (intro ballI allI impI)
    fix k ys assume "map_of parsed k = Some (JArr ys)"
    then have "(k, JArr ys) \<in> set parsed" by (rule map_of_SomeD)
    then have "JArr ys \<in> snd ` set parsed" by force
    with assms(2) show "ys = []" by blast
  qed
  from first_array_key_all_empty [OF this]
  have k: "first_array_key possibleKeys parsed = []" .
  from assms(2) Object_values_subset [of parsed]
  have "\<forall>v\<in>set (Object_values parsed). \<forall>ys. v = JArr ys \<longrightarrow> ys = []" by blast
  from first_array_value_all_empty [OF this]
  have "first_array_value (Object_values parsed) = None
      \<or> first_array_value (Object_values parsed) = Some []" .
  with k assms(1) show ?thesis by (auto simp: groq_try_parse_def Let_def)
qed


lemma normalize_groq_try:
  "groq_try_parse raw = Some xs \<Longrightarrow> normalize_groq raw = Inr xs"
  by (simp add: normalize_groq_def groq_extract_def)

lemma normalize_groq_pattern:
  assumes "groq_try_parse (JStr t) = None"
  shows "normalize_groq (JStr t) =
     (case match_array t of
        None \<Rightarrow> Inl (groq_invalid_json (JStr t))
      | Some a \<Rightarrow>
          (case JSON_parse a of
             None \<Rightarrow> Inl (groq_invalid_json (JStr t))
           | Some (JArr xs) \<Rightarrow> Inr xs
           | Some v \<Rightarrow> Inl (groq_not_array (JStr t))))"
  using assms
  by (simp add: normalize_groq_def groq_extract_def split: option.splits json.splits)










subsection \<open>Empty results in the Groq handlers\<close>

lemma groq_content_absent:
  "groq_message_content data = None \<or> groq_message_content data = Some JNull \<Longrightarrow>
   groq_content data = JStr (js ''[]'')"
  by (auto simp: groq_content_def nullish_or_def opt_chain_def)

lemma normalize_groq_empty: "normalize_groq (JStr (js ''[]'')) = Inr []"
  by code_simp

lemma increment_upload_count_row:
  "tbl u = Some row \<Longrightarrow>
   map_option row_uploads_today (increment_upload_count u now tbl u)
     = Some (Some (if reset_due now (Some row) then 1 else or_zero (row_uploads_today row) + 1))"
  by (simp add: increment_upload_count_def or_zero_def)

lemma groq_attempt_absent:
  assumes "res_ok s" "JSON_parse txt = Some data" "data \<noteq> JNull"
    "groq_message_content data = None \<or> groq_message_content data = Some JNull"
  shows "groq_attempt m k (Response s txt) = Return (JStr (js ''[]''), groq_usage data)"
  using assms(1-3) groq_content_absent [OF assms(4)]
  by (simp add: groq_attempt_def groq_try_def)

text \<open>
  Claim C9.  In any attempt, a successful response whose JSON envelope has no content at
  \<open>choices[0].message.content\<close> makes the Groq client return the string \<open>[]\<close>.
  When the client has returned that string, both Groq handlers answer \<open>ok\<close> with an
  empty \<open>mcqs\<close> and count 0.  The handler with the daily quota still runs
  \<open>incrementUserUsage\<close> for this result: when its RPC works, the caller's
  \<open>uploads_today\<close> becomes one more than before (or 1 when the reset time has passed).
\<close>

theorem empty_envelope_counts_as_generation:
  assumes post: "req_method req = js ''POST''"
    and au: "authenticate req e = Inr u"
    and bd: "req_json req = Some b"
    and mat: "\<not> no_material b"
    and call: "callGroqWithText (groq_key_set e) (fetch e) 3
                 = (Inr (Some (JStr (js ''[]''), us)), es)"
  shows "(res_ok s \<and> JSON_parse txt = Some data \<and> data \<noteq> JNull
          \<and> (groq_message_content data = None \<or> groq_message_content data = Some JNull)
          \<longrightarrow> groq_attempt m k (Response s txt) = Return (JStr (js ''[]''), groq_usage data))
       \<and> serve_groq req e
           = (Ok \<lparr>mcqs = [], count = 0, cached = None, user_limits = None,
                  global_usage_info = None, model_usage = Some us\<rparr>, es)
       \<and> (allowed (fst (checkUserLimits u (getUserSubscription (subscription_query e)) (db e) tbl))
          \<longrightarrow>
            serve_groq_limits req e tbl
              = ((Ok \<lparr>mcqs = [], count = 0, cached = None,
                      user_limits =
                        Some (getUserSubscription (subscription_query e),
                              remaining (fst (checkUserLimits u
                                 (getUserSubscription (subscription_query e)) (db e) tbl)) - 1,
                              resetTime (fst (checkUserLimits u
                                 (getUserSubscription (subscription_query e)) (db e) tbl))),
                      global_usage_info = None, model_usage = Some us\<rparr>,
                  incrementUserUsage u (db e)
                    (snd (checkUserLimits u (getUserSubscription (subscription_query e))
                            (db e) tbl))),
                 es)
            \<and> (inc_rpc (db e) = NoFault \<longrightarrow>
                 (\<forall>row. snd (checkUserLimits u (getUserSubscription (subscription_query e))
                              (db e) tbl) u = Some row \<longrightarrow>
                    map_option row_uploads_today (snd (fst (serve_groq_limits req e tbl)) u)
                      = Some (Some (if reset_due (db_now_inc (db e)) (Some row) then 1
                                    else or_zero (row_uploads_today row) + 1)))))"
proof -
  let ?sub = "getUserSubscription (subscription_query e)"
  have plain: "serve_groq req e
      = (Ok \<lparr>mcqs = [], count = 0, cached = None, user_limits = None,
             global_usage_info = None, model_usage = Some us\<rparr>, es)"
    using post au bd mat call normalize_groq_empty by (simp add: serve_groq_def)
  have limited: "serve_groq_limits req e tbl
      = ((Ok \<lparr>mcqs = [], count = 0, cached = None,
              user_limits = Some (?sub, remaining (fst (checkUserLimits u ?sub (db e) tbl)) - 1,
                                  resetTime (fst (checkUserLimits u ?sub (db e) tbl))),
              global_usage_info = None, model_usage = Some us\<rparr>,
          incrementUserUsage u (db e) (snd (checkUserLimits u ?sub (db e) tbl))),
         es)"
    if "allowed (fst (checkUserLimits u ?sub (db e) tbl))"
    using that post au bd mat call normalize_groq_empty
    by (cases "checkUserLimits u ?sub (db e) tbl")
       (simp add: serve_groq_limits_def groq_limits_generate_def Let_def)
  have inc: "map_option row_uploads_today (snd (fst (serve_groq_limits req e tbl)) u)
      = Some (Some (if reset_due (db_now_inc (db e)) (Some row) then 1
                    else or_zero (row_uploads_today row) + 1))"
    if "allowed (fst (checkUserLimits u ?sub (db e) tbl))" "inc_rpc (db e) = NoFault"
      "snd (checkUserLimits u ?sub (db e) tbl) u = Some row" for row
    using limited [OF that(1)] that(2)
      increment_upload_count_row
        [where tbl = "snd (checkUserLimits u ?sub (db e) tbl)" and u = u and row = row
           and now = "db_now_inc (db e)", OF that(3)]
    by (simp add: incrementUserUsage_def)
  have att: "groq_attempt m k (Response s txt) = Return (JStr (js ''[]''), groq_usage data)"
    if "res_ok s" "JSON_parse txt = Some data" "data \<noteq> JNull"
      "groq_message_content data = None \<or> groq_message_content data = Some JNull"
    using that by (rule groq_attempt_absent)
  from att plain limited inc show ?thesis by blast
qed

text \<open>
  Claim C9, instance: two 500 responses, then the envelope \<open>{"choices":[]}\<close>; a FREE
  user with 3 uploads has 4 afterwards.
\<close>

theorem empty_envelope_counts_as_generation_witness:
  "groq_attempt 3 3 (Response 200 (js ''{\"choices\":[]}'')) = Return (JStr (js ''[]''), JObj [])
   \<and> serve_groq ex_request
        (ex_env (twice_then (Response 500 (js ''down'')) (Response 200 (js ''{\"choices\":[]}''))))
     = (Ok \<lparr>mcqs = [], count = 0, cached = None, user_limits = None,
            global_usage_info = None, model_usage = Some (JObj [])\<rparr>,
        [Fetch 1, Sleep 2000, Fetch 2, Sleep 4000, Fetch 3])
   \<and> fst (serve_groq_limits ex_request
        (ex_env (twice_then (Response 500 (js ''down'')) (Response 200 (js ''{\"choices\":[]}''))))
        (ex_table 3 5000))
     = (Ok \<lparr>mcqs = [], count = 0, cached = None, user_limits = Some (FREE, 1, 5000),
            global_usage_info = None, model_usage = Some (JObj [])\<rparr>,
        incrementUserUsage ex_user ex_db (ex_table 3 5000))
   \<and> map_option row_uploads_today
        (snd (fst (serve_groq_limits ex_request
           (ex_env (twice_then (Response 500 (js ''down''))
              (Response 200 (js ''{\"choices\":[]}''))))
           (ex_table 3 5000))) ex_user)
     = Some (Some 4)"
proof -
  let ?e = "ex_env (twice_then (Response 500 (js ''down''))
              (Response 200 (js ''{\"choices\":[]}'')))"
  let ?data = "JObj [(js ''choices'', JArr [])]"
  let ?row = "\<lparr>row_uploads_today = Some 3, row_daily_reset_at = Some 5000\<rparr>"
  let ?es = "[Fetch 1, Sleep 2000, Fetch 2, Sleep 4000, Fetch 3]"
  have post: "req_method ex_request = js ''POST''" by (simp add: ex_request_def)
  have au: "authenticate ex_request ?e = Inr ex_user" by code_simp
  have bd: "req_json ex_request = Some ex_body" by (simp add: ex_request_def)
  have mat: "\<not> no_material ex_body" by code_simp
  have call: "callGroqWithText (groq_key_set ?e) (fetch ?e) 3
      = (Inr (Some (JStr (js ''[]''), JObj [])), ?es)"
    by code_simp
  have ok: "res_ok 200" by (simp add: res_ok_def)
  have parse: "JSON_parse (js ''{\"choices\":[]}'') = Some ?data" by code_simp
  have nn: "?data \<noteq> JNull" by simp
  have absent: "groq_message_content ?data = None \<or> groq_message_content ?data = Some JNull"
    by code_simp
  have lim: "allowed (fst (checkUserLimits ex_user (getUserSubscription (subscription_query ?e))
               (db ?e) (ex_table 3 5000)))"
    by code_simp
  have rpc: "inc_rpc (db ?e) = NoFault" by (simp add: ex_env_def ex_db_def)
  have row: "snd (checkUserLimits ex_user (getUserSubscription (subscription_query ?e))
               (db ?e) (ex_table 3 5000)) ex_user = Some ?row"
    by code_simp
  have vals: "getUserSubscription (subscription_query ?e) = FREE"
    "remaining (fst (checkUserLimits ex_user FREE (db ?e) (ex_table 3 5000))) = 2"
    "resetTime (fst (checkUserLimits ex_user FREE (db ?e) (ex_table 3 5000))) = 5000"
    "groq_usage ?data = JObj []" "db ?e = ex_db"
    "\<not> reset_due (db_now_inc ex_db) (Some ?row)" "or_zero (row_uploads_today ?row) = 3"
    by code_simp+
  have same: "snd (checkUserLimits ex_user FREE ex_db (ex_table 3 5000)) = ex_table 3 5000"
    using checkUserLimits_snd [of ex_user FREE ex_db "ex_table 3 5000"]
    by (simp add: stats_table get_user_usage_stats_table ex_table_def ex_db_def reset_due_def)
  note T = empty_envelope_counts_as_generation
    [OF post au bd mat call, of 200 "js ''{\"choices\":[]}''" ?data 3 3 "ex_table 3 5000"]
  note T3 = T [THEN conjunct2, THEN conjunct2, THEN mp, OF lim]
  have z: "groq_attempt 3 3 (Response 200 (js ''{\"choices\":[]}''))
      = Return (JStr (js ''[]''), JObj [])"
    using T [THEN conjunct1] ok parse nn absent vals by simp
  have a: "serve_groq ex_request ?e
     = (Ok \<lparr>mcqs = [], count = 0, cached = None, user_limits = None,
            global_usage_info = None, model_usage = Some (JObj [])\<rparr>, ?es)"
    using T [THEN conjunct2, THEN conjunct1] .
  have b: "fst (serve_groq_limits ex_request ?e (ex_table 3 5000))
     = (Ok \<lparr>mcqs = [], count = 0, cached = None, user_limits = Some (FREE, 1, 5000),
            global_usage_info = None, model_usage = Some (JObj [])\<rparr>,
        incrementUserUsage ex_user ex_db (ex_table 3 5000))"
    using T3 [THEN conjunct1] vals same by simp
  have c: "map_option row_uploads_today
        (snd (fst (serve_groq_limits ex_request ?e (ex_table 3 5000))) ex_user) = Some (Some 4)"
    using T3 [THEN conjunct2, rule_format, OF rpc row] vals by simp
  from z a b c show ?thesis by simp
qed

lemma serve_groq_result:
  assumes "req_method req = js ''POST''" "authenticate req e = Inr u" "req_json req = Some b"
    "\<not> no_material b"
    "callGroqWithText (groq_key_set e) (fetch e) 3 = (Inr (Some (raw, us)), es)"
  shows "serve_groq req e =
     (case normalize_groq raw of
        Inl err \<Rightarrow> (InternalError err, es)
      | Inr m \<Rightarrow>
          (Ok \<lparr>mcqs = m, count = length m, cached = None, user_limits = None,
               global_usage_info = None, model_usage = Some us\<rparr>, es))"
  using assms by (simp add: serve_groq_def)

lemma serve_groq_limits_result:
  assumes "req_method req = js ''POST''" "authenticate req e = Inr u" "req_json req = Some b"
    "\<not> no_material b"
    "callGroqWithText (groq_key_set e) (fetch e) 3 = (Inr (Some (raw, us)), es)"
    "allowed (fst (checkUserLimits u (getUserSubscription (subscription_query e)) (db e) tbl))"
  shows "fst (fst (serve_groq_limits req e tbl)) =
     (case normalize_groq raw of
        Inl err \<Rightarrow> InternalError err
      | Inr m \<Rightarrow>
          Ok \<lparr>mcqs = m, count = length m, cached = None,
              user_limits =
                Some (getUserSubscription (subscription_query e),
                      remaining (fst (checkUserLimits u
                         (getUserSubscription (subscription_query e)) (db e) tbl)) - 1,
                      resetTime (fst (checkUserLimits u
                         (getUserSubscription (subscription_query e)) (db e) tbl))),
              global_usage_info = None, model_usage = Some us\<rparr>)"
  using assms
  by (cases "checkUserLimits u (getUserSubscription (subscription_query e)) (db e) tbl")
     (simp add: serve_groq_limits_def groq_limits_generate_def Let_def split: sum.splits)

text \<open>
  Claim C10, as amended.  For a request that reaches the normalizer of a Groq handler
  with the raw text \<open>t\<close>:
  \<^item> when \<open>t\<close> parses to the empty array (as \<open>[]\<close> does), the list is empty and the
    request succeeds with count 0;
  \<^item> when \<open>t\<close> parses to an object all of whose array values are empty (as
    \<open>{"mcqs": []}\<close> does), the key search and the search through the values find
    nothing, and the array pattern applied to the raw text decides: without a match, or
    with a match that does not parse, the normalizer fails with
    \<open>Groq did not return valid JSON\<close> and the request ends with status 500; with a match
    that parses (an array nested deeper, or bracket text inside a string) that array is
    returned and the request succeeds.
\<close>

theorem empty_wrapper_decided_by_array_pattern:
  assumes post: "req_method req = js ''POST''"
    and au: "authenticate req e = Inr u"
    and bd: "req_json req = Some b"
    and mat: "\<not> no_material b"
    and call: "callGroqWithText (groq_key_set e) (fetch e) 3 = (Inr (Some (JStr t, us)), es)"
    and al: "allowed (fst (checkUserLimits u (getUserSubscription (subscription_query e))
                             (db e) tbl))"
  shows "(JSON_parse t = Some (JArr []) \<longrightarrow>
            normalize_groq (JStr t) = Inr []
          \<and> serve_groq req e
              = (Ok \<lparr>mcqs = [], count = 0, cached = None, user_limits = None,
                     global_usage_info = None, model_usage = Some us\<rparr>, es)
          \<and> status (fst (fst (serve_groq_limits req e tbl))) = 200
          \<and> response_mcqs (fst (fst (serve_groq_limits req e tbl))) = Some [])
       \<and> (JSON_parse t = Some (JObj parsed)
            \<and> (\<forall>v\<in>snd ` set parsed. \<forall>ys. v = JArr ys \<longrightarrow> ys = [])
            \<and> (match_array t = None \<or> (\<exists>a. match_array t = Some a \<and> JSON_parse a = None))
          \<longrightarrow>
            normalize_groq (JStr t)
              = Inl (JsError (Text (js ''Groq did not return valid JSON''))
                       (Some (RawValue (JStr t))) None)
          \<and> serve_groq req e
              = (InternalError (JsError (Text (js ''Groq did not return valid JSON''))
                                  (Some (RawValue (JStr t))) None), es)
          \<and> status (fst (serve_groq req e)) = 500
          \<and> fst (fst (serve_groq_limits req e tbl))
              = InternalError (JsError (Text (js ''Groq did not return valid JSON''))
                                 (Some (RawValue (JStr t))) None)
          \<and> status (fst (fst (serve_groq_limits req e tbl))) = 500)
       \<and> (JSON_parse t = Some (JObj parsed)
            \<and> (\<forall>v\<in>snd ` set parsed. \<forall>ys. v = JArr ys \<longrightarrow> ys = [])
            \<and> match_array t = Some a \<and> JSON_parse a = Some (JArr xs)
          \<longrightarrow>
            normalize_groq (JStr t) = Inr xs
          \<and> serve_groq req e
              = (Ok \<lparr>mcqs = xs, count = length xs, cached = None, user_limits = None,
                     global_usage_info = None, model_usage = Some us\<rparr>, es)
          \<and> status (fst (fst (serve_groq_limits req e tbl))) = 200
          \<and> response_mcqs (fst (fst (serve_groq_limits req e tbl))) = Some xs)"
proof -
  note plain = serve_groq_result [OF post au bd mat call]
  note limited = serve_groq_limits_result [OF post au bd mat call al]
  have empty: "normalize_groq (JStr t) = Inr []" if "JSON_parse t = Some (JArr [])"
    using that groq_try_parse_array [of "JStr t" "[]"] normalize_groq_try [of "JStr t" "[]"]
    by simp
  have pat: "normalize_groq (JStr t) =
     (case match_array t of
        None \<Rightarrow> Inl (groq_invalid_json (JStr t))
      | Some a \<Rightarrow>
          (case JSON_parse a of
             None \<Rightarrow> Inl (groq_invalid_json (JStr t))
           | Some (JArr xs) \<Rightarrow> Inr xs
           | Some v \<Rightarrow> Inl (groq_not_array (JStr t))))"
    if "JSON_parse t = Some (JObj parsed)"
      "\<forall>v\<in>snd ` set parsed. \<forall>ys. v = JArr ys \<longrightarrow> ys = []"
    using groq_try_parse_only_empty [of "JStr t" parsed] that
    by (intro normalize_groq_pattern) simp
  have bad: "normalize_groq (JStr t)
      = Inl (JsError (Text (js ''Groq did not return valid JSON''))
               (Some (RawValue (JStr t))) None)"
    if "JSON_parse t = Some (JObj parsed)"
      "\<forall>v\<in>snd ` set parsed. \<forall>ys. v = JArr ys \<longrightarrow> ys = []"
      "match_array t = None \<or> (\<exists>a. match_array t = Some a \<and> JSON_parse a = None)"
    using pat [OF that(1,2)] that(3) by (auto simp: groq_invalid_json_def)
  have good: "normalize_groq (JStr t) = Inr xs"
    if "JSON_parse t = Some (JObj parsed)"
      "\<forall>v\<in>snd ` set parsed. \<forall>ys. v = JArr ys \<longrightarrow> ys = []"
      "match_array t = Some a" "JSON_parse a = Some (JArr xs)"
    using pat [OF that(1,2)] that(3,4) by simp
  show ?thesis
  proof (intro conjI impI, goal_cases)
    case 1
    then show ?case by (rule empty)
  next
    case 2
    from empty [OF this] plain show ?case by simp
  next
    case 3
    from empty [OF this] limited show ?case by simp
  next
    case 4
    from empty [OF this] limited show ?case by (simp add: response_mcqs_def)
  next
    case 5
    then show ?case by (elim conjE) (rule bad)
  next
    case 6
    then have "normalize_groq (JStr t)
      = Inl (JsError (Text (js ''Groq did not return valid JSON''))
               (Some (RawValue (JStr t))) None)"
      by (elim conjE) (rule bad)
    with plain show ?case by simp
  next
    case 7
    then have "normalize_groq (JStr t)
      = Inl (JsError (Text (js ''Groq did not return valid JSON''))
               (Some (RawValue (JStr t))) None)"
      by (elim conjE) (rule bad)
    with plain show ?case by simp
  next
    case 8
    then have "normalize_groq (JStr t)
      = Inl (JsError (Text (js ''Groq did not return valid JSON''))
               (Some (RawValue (JStr t))) None)"
      by (elim conjE) (rule bad)
    with limited show ?case by simp
  next
    case 9
    then have "normalize_groq (JStr t)
      = Inl (JsError (Text (js ''Groq did not return valid JSON''))
               (Some (RawValue (JStr t))) None)"
      by (elim conjE) (rule bad)
    with limited show ?case by simp
  next
    case 10
    then show ?case by (elim conjE) (rule good)
  next
    case 11
    then have "normalize_groq (JStr t) = Inr xs" by (elim conjE) (rule good)
    with plain show ?case by simp
  next
    case 12
    then have "normalize_groq (JStr t) = Inr xs" by (elim conjE) (rule good)
    with limited show ?case by simp
  next
    case 13
    then have "normalize_groq (JStr t) = Inr xs" by (elim conjE) (rule good)
    with limited show ?case by (simp add: response_mcqs_def)
  qed
qed

text \<open>
  Claim C10 as stated fails: in \<open>{"mcqs": [], "note": "[{}]"}\<close> the only array
  value is empty, but the array pattern matches \<open>[{}]\<close> inside the string, and both
  Groq handlers answer 200 with one element.
\<close>

theorem empty_wrapper_with_bracket_text_accepted:
  "JSON_parse (js ''{\"mcqs\": [], \"note\": \"[{}]\"}'')
     = Some (JObj [(js ''mcqs'', JArr []), (js ''note'', JStr (js ''[{}]''))])
   \<and> serve_groq ex_request
         (ex_env (always (Response 200
            (groq_envelope (js ''{\"mcqs\": [], \"note\": \"[{}]\"}'')))))
       = (Ok \<lparr>mcqs = [JObj []], count = 1, cached = None, user_limits = None,
              global_usage_info = None, model_usage = Some (JObj [])\<rparr>, [Fetch 1])
   \<and> status (fst (serve_groq ex_request
         (ex_env (always (Response 200
            (groq_envelope (js ''{\"mcqs\": [], \"note\": \"[{}]\"}''))))))) = 200
   \<and> fst (fst (serve_groq_limits ex_request
         (ex_env (always (Response 200
            (groq_envelope (js ''{\"mcqs\": [], \"note\": \"[{}]\"}'')))))
         (ex_table 3 5000)))
       = Ok \<lparr>mcqs = [JObj []], count = 1, cached = None, user_limits = Some (FREE, 1, 5000),
              global_usage_info = None, model_usage = Some (JObj [])\<rparr>"
  by code_simp

text \<open>
  Claim C10, instances: \<open>[]\<close> succeeds with count 0; \<open>{"mcqs": []}\<close> ends with
  status 500; an empty \<open>mcqs\<close> beside a nested array of one element succeeds with that
  element.
\<close>

theorem empty_wrapper_decided_by_array_pattern_witness:
  "serve_groq ex_request (ex_env (always (Response 200 (groq_envelope (js ''[]'')))))
     = (Ok \<lparr>mcqs = [], count = 0, cached = None, user_limits = None,
            global_usage_info = None, model_usage = Some (JObj [])\<rparr>, [Fetch 1])
   \<and> status (fst (fst (serve_groq_limits ex_request
         (ex_env (always (Response 200 (groq_envelope (js ''[]''))))) (ex_table 3 5000)))) = 200
   \<and> response_mcqs (fst (fst (serve_groq_limits ex_request
         (ex_env (always (Response 200 (groq_envelope (js ''[]''))))) (ex_table 3 5000))))
       = Some []
   \<and> normalize_groq (JStr (js ''{\"mcqs\": []}''))
       = Inl (JsError (Text (js ''Groq did not return valid JSON''))
                (Some (RawValue (JStr (js ''{\"mcqs\": []}'')))) None)
   \<and> status (fst (serve_groq ex_request
         (ex_env (always (Response 200 (groq_envelope (js ''{\"mcqs\": []}''))))))) = 500
   \<and> status (fst (fst (serve_groq_limits ex_request
         (ex_env (always (Response 200 (groq_envelope (js ''{\"mcqs\": []}'')))))
         (ex_table 3 5000)))) = 500
   \<and> serve_groq ex_request
         (ex_env (always (Response 200
            (groq_envelope (js ''{\"mcqs\": [], \"data\": {\"questions\": [{\"q\":1}]}}'')))))
       = (Ok \<lparr>mcqs = [JObj [(js ''q'', JNum 1 0)]], count = 1, cached = None,
              user_limits = None, global_usage_info = None, model_usage = Some (JObj [])\<rparr>,
          [Fetch 1])"
proof -
  let ?t1 = "js ''[]''"
  let ?t2 = "js ''{\"mcqs\": []}''"
  let ?t3 = "js ''{\"mcqs\": [], \"data\": {\"questions\": [{\"q\":1}]}}''"
  let ?e1 = "ex_env (always (Response 200 (groq_envelope ?t1)))"
  let ?e2 = "ex_env (always (Response 200 (groq_envelope ?t2)))"
  let ?e3 = "ex_env (always (Response 200 (groq_envelope ?t3)))"
  let ?p3 = "[(js ''mcqs'', JArr []),
              (js ''data'', JObj [(js ''questions'', JArr [JObj [(js ''q'', JNum 1 0)]])])]"
  have post: "req_method ex_request = js ''POST''" by (simp add: ex_request_def)
  have bd: "req_json ex_request = Some ex_body" by (simp add: ex_request_def)
  have mat: "\<not> no_material ex_body" by code_simp
  have au: "authenticate ex_request ?e1 = Inr ex_user" "authenticate ex_request ?e2 = Inr ex_user"
    "authenticate ex_request ?e3 = Inr ex_user"
    by code_simp+
  have call: "callGroqWithText (groq_key_set ?e1) (fetch ?e1) 3
      = (Inr (Some (JStr ?t1, JObj [])), [Fetch 1])"
    "callGroqWithText (groq_key_set ?e2) (fetch ?e2) 3
      = (Inr (Some (JStr ?t2, JObj [])), [Fetch 1])"
    "callGroqWithText (groq_key_set ?e3) (fetch ?e3) 3
      = (Inr (Some (JStr ?t3, JObj [])), [Fetch 1])"
    by code_simp+
  have al: "allowed (fst (checkUserLimits ex_user (getUserSubscription (subscription_query ?e1))
               (db ?e1) (ex_table 3 5000)))"
    "allowed (fst (checkUserLimits ex_user (getUserSubscription (subscription_query ?e2))
               (db ?e2) (ex_table 3 5000)))"
    "allowed (fst (checkUserLimits ex_user (getUserSubscription (subscription_query ?e3))
               (db ?e3) (ex_table 3 5000)))"
    by code_simp+
  have p1: "JSON_parse ?t1 = Some (JArr [])" by code_simp
  have p2: "JSON_parse ?t2 = Some (JObj [(js ''mcqs'', JArr [])])" by code_simp
  have p3: "JSON_parse ?t3 = Some (JObj ?p3)" by code_simp
  have m2: "match_array ?t2 = None" by code_simp
  have m3: "match_array ?t3 = Some (js ''[{\"q\":1}]'')" by code_simp
  have p4: "JSON_parse (js ''[{\"q\":1}]'') = Some (JArr [JObj [(js ''q'', JNum 1 0)]])"
    by code_simp
  note A = empty_wrapper_decided_by_array_pattern
      [OF post au(1) bd mat call(1) al(1), THEN conjunct1]
  note B = empty_wrapper_decided_by_array_pattern
      [OF post au(2) bd mat call(2) al(2), where parsed = "[(js ''mcqs'', JArr [])]",
       THEN conjunct2, THEN conjunct1]
  note C = empty_wrapper_decided_by_array_pattern
      [OF post au(3) bd mat call(3) al(3), where parsed = ?p3 and a = "js ''[{\"q\":1}]''"
         and xs = "[JObj [(js ''q'', JNum 1 0)]]",
       THEN conjunct2, THEN conjunct2]
  have a: "serve_groq ex_request ?e1
     = (Ok \<lparr>mcqs = [], count = 0, cached = None, user_limits = None,
            global_usage_info = None, model_usage = Some (JObj [])\<rparr>, [Fetch 1])"
    "status (fst (fst (serve_groq_limits ex_request ?e1 (ex_table 3 5000)))) = 200"
    "response_mcqs (fst (fst (serve_groq_limits ex_request ?e1 (ex_table 3 5000)))) = Some []"
    using A p1 by simp_all
  have b: "normalize_groq (JStr ?t2)
       = Inl (JsError (Text (js ''Groq did not return valid JSON''))
                (Some (RawValue (JStr ?t2))) None)"
    "status (fst (serve_groq ex_request ?e2)) = 500"
    "status (fst (fst (serve_groq_limits ex_request ?e2 (ex_table 3 5000)))) = 500"
    using B p2 m2 by simp_all
  have c: "serve_groq ex_request ?e3
       = (Ok \<lparr>mcqs = [JObj [(js ''q'', JNum 1 0)]], count = 1, cached = None,
              user_limits = None, global_usage_info = None, model_usage = Some (JObj [])\<rparr>,
          [Fetch 1])"
    using C p3 m3 p4 by simp
  from a b c show ?thesis by simp
qed

end
